theory Spec2Isabelle
  imports Complex_Main
begin

section \<open>JavaScript values and strings\<close>

text \<open>
  The fragment of JavaScript values the modelled code inspects. Message and log literals of
  the source are Chinese; the model writes each of them as an ASCII tag.
\<close>

datatype jsval = JUndefined | JNull | JBool bool | JNum int | JStr string

text \<open>ToBoolean on the modelled values (integers only, so no NaN).\<close>

fun truthy :: "jsval \<Rightarrow> bool" where
  "truthy JUndefined = False"
| "truthy JNull = False"
| "truthy (JBool b) = b"
| "truthy (JNum n) = (n \<noteq> 0)"
| "truthy (JStr s) = (s \<noteq> [])"

section \<open>Password change: one record (batch-change-password.js)\<close>

record init_result =
  init_success :: bool
  init_message :: string

record change_result =
  change_success :: bool
  change_message :: string
  change_userInfo :: jsval
  is_api_error :: jsval

record password_change_data =
  record_id :: string
  old_username :: string
  old_password :: string
  new_username :: jsval
  new_password :: jsval

text \<open>
  The argument object of \<open>updatePasswordChange\<close>; a field the call site does not write is
  \<open>None\<close>.
\<close>

record update_params =
  up_record_id :: string
  up_status :: nat
  up_error_reason :: "string option"
  up_account_info :: "jsval option"
  increment_error_count :: "bool option"

record single_result =
  sr_success :: bool
  sr_message :: string
  sr_userInfo :: "jsval option"

text \<open>
  \<open>updatePasswordChange\<close> lives in \<open>../api/index.js\<close>, which is not part of the sources:
  it is a parameter. A call either rejects with an error message or resolves to a result
  with a \<open>success\<close> flag.
\<close>

datatype api_outcome = ApiThrows string | ApiReturns bool

text \<open>
  \<open>initialize\<close> and \<open>changePassword\<close> of change-password.js wrap their bodies in
  try/catch and always return a result object; what they return depends on the browser
  and the site, so the returned objects are inputs here.
\<close>

record change_env =
  initialize :: init_result
  changePassword :: "string \<Rightarrow> string \<Rightarrow> jsval \<Rightarrow> jsval \<Rightarrow> change_result"
  updatePasswordChange :: "update_params \<Rightarrow> api_outcome"

definition report :: "change_env \<Rightarrow> update_params \<Rightarrow> single_result
    \<Rightarrow> (string + single_result) \<times> update_params list" where
  "report env p r =
     (case updatePasswordChange env p of
        ApiThrows e \<Rightarrow> (Inl e, [p])
      | ApiReturns ok \<Rightarrow> (Inr r, [p]))"

text \<open>The body of the \<open>try\<close> block: \<open>Inl\<close> is a thrown error, the list the calls made.\<close>

definition single_try :: "change_env \<Rightarrow> password_change_data
    \<Rightarrow> (string + single_result) \<times> update_params list" where
  "single_try env d =
     (let initResult = initialize env in
      if \<not> init_success initResult then
        report env
          \<lparr>up_record_id = record_id d, up_status = 3,
           up_error_reason = Some (''browser init failed: '' @ init_message initResult),
           up_account_info = None, increment_error_count = Some False\<rparr>
          \<lparr>sr_success = False,
           sr_message = ''browser init failed: '' @ init_message initResult,
           sr_userInfo = None\<rparr>
      else
        let changeResult =
              changePassword env (old_username d) (old_password d) (new_username d)
                (new_password d)
        in
        if change_success changeResult then
          report env
            \<lparr>up_record_id = record_id d, up_status = 2, up_error_reason = None,
             up_account_info = Some (change_userInfo changeResult),
             increment_error_count = None\<rparr>
            \<lparr>sr_success = True, sr_message = ''change succeeded'',
             sr_userInfo = Some (change_userInfo changeResult)\<rparr>
        else
          let isApiError = (is_api_error changeResult = JBool True) in
          report env
            \<lparr>up_record_id = record_id d, up_status = 3,
             up_error_reason = Some (change_message changeResult),
             up_account_info = None, increment_error_count = Some isApiError\<rparr>
            \<lparr>sr_success = False, sr_message = change_message changeResult,
             sr_userInfo = None\<rparr>)"

text \<open>
  The whole function: the \<open>catch\<close> block reports once more, never counted, and that call
  is outside any handler, so its rejection leaves the function. The \<open>finally\<close> block calls
  \<open>cleanup\<close>, which catches its own errors and touches no report.
\<close>

definition executeSingleChangePassword :: "change_env \<Rightarrow> password_change_data
    \<Rightarrow> (string + single_result) \<times> update_params list" where
  "executeSingleChangePassword env d =
     (case single_try env d of
        (Inr r, ps) \<Rightarrow> (Inr r, ps)
      | (Inl e, ps) \<Rightarrow>
          (let p = \<lparr>up_record_id = record_id d, up_status = 3,
                    up_error_reason = Some (''exception: '' @ e),
                    up_account_info = None, increment_error_count = Some False\<rparr>
           in case updatePasswordChange env p of
                ApiThrows e' \<Rightarrow> (Inl e', ps @ [p])
              | ApiReturns ok \<Rightarrow>
                  (Inr \<lparr>sr_success = False, sr_message = ''exception: '' @ e,
                        sr_userInfo = None\<rparr>, ps @ [p])))"

section \<open>Strings\<close>

text \<open>
  A string is a list of \<open>char\<close>, one per UTF-16 code unit below 256 (URLs, cookie domains
  and device codes are ASCII in practice). \<open>js_includes s p\<close> is \<open>s.includes(p)\<close>,
  \<open>endsWith s p\<close> is \<open>s.endsWith(p)\<close>.
\<close>

fun startsWith :: "string \<Rightarrow> string \<Rightarrow> bool" where
  "startsWith s [] = True"
| "startsWith [] (p # ps) = False"
| "startsWith (c # cs) (p # ps) = (c = p \<and> startsWith cs ps)"

fun js_includes :: "string \<Rightarrow> string \<Rightarrow> bool" where
  "js_includes [] p = (p = [])"
| "js_includes (c # cs) p = (startsWith (c # cs) p \<or> js_includes cs p)"

definition endsWith :: "string \<Rightarrow> string \<Rightarrow> bool" where
  "endsWith s p = startsWith (rev s) (rev p)"

text \<open>
  The characters \<open>String.prototype.trim\<close> strips, among the code units below 256: TAB, LF,
  VT, FF, CR, SPACE and NO-BREAK SPACE.
\<close>

definition js_whitespace :: "char \<Rightarrow> bool" where
  "js_whitespace c = (of_char c \<in> {9, 10, 11, 12, 13, 32, 160 :: nat})"

definition trim :: "string \<Rightarrow> string" where
  "trim s = rev (dropWhile js_whitespace (rev (dropWhile js_whitespace s)))"

text \<open>
  \<open>String(v)\<close> on the modelled values. A number is an integer, printed in full: the
  identifiers the code converts are far below \<open>10^21\<close>, where JavaScript turns to the
  exponent form.
\<close>

fun digits :: "nat \<Rightarrow> string" where
  "digits n =
     (if n < 10 then [''0123456789'' ! n]
      else digits (n div 10) @ [''0123456789'' ! (n mod 10)])"

declare digits.simps [simp del]

fun js_String :: "jsval \<Rightarrow> string" where
  "js_String JUndefined = ''undefined''"
| "js_String JNull = ''null''"
| "js_String (JBool b) = (if b then ''true'' else ''false'')"
| "js_String (JNum n) = (if n < 0 then CHR ''-'' # digits (nat (- n)) else digits (nat n))"
| "js_String (JStr s) = s"

text \<open>Truthiness of a value that is a string or \<open>null\<close>.\<close>

fun truthy_str :: "string option \<Rightarrow> bool" where
  "truthy_str None = False"
| "truthy_str (Some s) = (s \<noteq> [])"

section \<open>Random delays\<close>

text \<open>
  A value of \<open>Math.random()\<close>: a real number \<open>u\<close> with \<open>0 \<le> u < 1\<close>. The products below
  are taken in the reals, not in floating point. A timer fires when its delay is over or
  later; how much later is part of the world of a run.
\<close>

typedef unit_draw = "{u::real. 0 \<le> u \<and> u < 1}"
  by (rule exI [of _ 0]) simp

setup_lifting type_definition_unit_draw

lift_definition draw_of_percent :: "nat \<Rightarrow> unit_draw" is
  "\<lambda>n. real (n mod 100) / 100"
  by simp

text \<open>\<open>getRandomDelay(min, max)\<close> of both sign-in classes, on the draw it makes.\<close>

definition getRandomDelay :: "int \<Rightarrow> int \<Rightarrow> unit_draw \<Rightarrow> int" where
  "getRandomDelay lo hi u = \<lfloor>Rep_unit_draw u * of_int (hi - lo + 1)\<rfloor> + lo"


section \<open>The world of one login run\<close>

text \<open>
  Every awaited call of the run that can reject is a \<open>step\<close>; consecutive calls whose
  results the code does not inspect are one step. A poll of the backend carries its
  iteration number, the fill of the code field the text filled in.
\<close>

datatype step =
    LaunchPersistentContext
  | ApplyStealthToContext
  | NewPage
  | GotoLogin
  | GotoConsoleDirect
  | DismissAnnouncement
  | Reload
  | DismissAnnouncementAgain
  | ClickProviderButton
  | AwaitNewPage
  | WaitForLoginField
  | EnterUsername
  | EnterPassword
  | ClickSignIn
  | GenerateTOTP
  | EnterTotp
  | ClickVerify
  | SkipTrustedDevice
  | AddAccountLoginInfo
  | SendEmail
  | WaitForOtpField
  | GetAccountLoginInfo nat
  | ClickOtpField
  | FillOtpField string
  | GotoConsoleAfterLogin
  | ReadLocalStorage
  | ReadCookies
  | CleanupReadCookies
  | ClearCookies
  | AddCookies
  | ClearStorage
  | ClosePage
  | CloseContext
  | CloseBrowser
  | LaunchBrowser
  | NewContext
  | WaitForLoginUrl
  | WaitForAuthorizeUrl
  | WaitForApproveLink
  | ClickAllow
  | Screenshot

datatype log_line =
    LogNoTwofaSecret
  | LogTwofaFailed
  | LogAddLoginInfoFailed
  | LogDeviceCodeTimeout
  | LogSuccess
  | LogIncomplete
  | LogError
  | LogCleanupWarning

datatype event = Did step | Logged log_line

text \<open>The places where the run reads \<open>page.url()\<close> and branches on it.\<close>

datatype checkpoint =
    AfterGotoLogin
  | AfterPopup
  | AfterSignIn
  | AfterTotp
  | BeforeTrustedDevice
  | FinalTotp
  | AfterConsent

record cookie =
  cookie_name :: string
  cookie_value :: string
  cookie_domain :: string
  cookie_path :: string

record user_data =
  ud_id :: jsval
  ud_username :: jsval

record self_response =
  resp_data :: "user_data option"

text \<open>
  \<open>localStorage.getItem('user')\<close> followed by \<open>JSON.parse\<close>: no item (or the empty string),
  text that does not parse, the text \<open>null\<close> (reading \<open>id\<close> of it throws inside the inner
  \<open>try\<close>), or a value whose \<open>id\<close> can be read.
\<close>

datatype stored_user = NoItem | Unparsable | ParsedNull | Parsed user_data

record add_result =
  add_success :: bool
  login_info_id :: string
  expire_time :: int

record login_info =
  github_device_code :: "string option"

record get_result =
  get_success :: bool
  get_data :: "login_info option"

text \<open>
  What the browser, the site, the backend and the clock present to one run.
  \<open>rejects s\<close>: the awaited step \<open>s\<close> rejects. \<open>backend t\<close>: the record
  \<open>getAccountLoginInfo\<close> returns when it answers at wall-clock time \<open>t\<close> (milliseconds);
  \<open>fetch_ms k\<close>: how long the \<open>k\<close>-th poll takes, from the test of the loop to the
  answer; \<open>draw k\<close>: the random draw of the delay after the \<open>k\<close>-th poll; \<open>timer_lag k\<close>:
  how long after that delay the next test of the loop is taken (\<open>setTimeout\<close> fires at
  the delay or later). \<open>clock_deadline\<close> and \<open>clock_start\<close> are the two readings of
  \<open>Date.now()\<close> before the polling loop. \<open>cookies\<close> is the cookie jar of the context at the
  end of the run, in the order \<open>context.cookies()\<close> lists it.
\<close>

record world =
  rejects :: "step \<Rightarrow> bool"
  has_open_page :: bool
  url_at :: "checkpoint \<Rightarrow> string"
  providerButtonVisible :: bool
  verifyVisible :: bool
  addResult :: add_result
  env_EMAIL_TO :: "string option"
  clock_deadline :: int
  clock_start :: int
  backend :: "int \<Rightarrow> get_result"
  fetch_ms :: "nat \<Rightarrow> nat"
  draw :: "nat \<Rightarrow> unit_draw"
  timer_lag :: "nat \<Rightarrow> nat"
  userSelfResponse :: "self_response option"
  localStorage_user :: stored_user
  cookies :: "cookie list"
  page_isClosed :: bool

record login_args =
  accountId :: string
  username :: string
  password :: string
  noticeEmail :: "string option"
  twofaSecret :: "string option"

record session_result =
  session :: string
  apiUser :: string
  userInfo :: "user_data option"

section \<open>Control flow of a run\<close>

text \<open>
  A piece of the \<open>try\<close> block ends by falling through to the next statement, by
  \<open>return\<close>, or by an exception; it leaves the events it produced.
\<close>

datatype flow = Next | Return "session_result option" | Thrown

definition seq :: "flow \<times> event list \<Rightarrow> flow \<times> event list \<Rightarrow> flow \<times> event list" where
  "seq a b = (case fst a of Next \<Rightarrow> (fst b, snd a @ snd b) | _ \<Rightarrow> a)"

definition guarded :: "bool \<Rightarrow> flow \<times> event list \<Rightarrow> flow \<times> event list" where
  "guarded g p = (if g then p else (Next, []))"

fun attempt :: "(step \<Rightarrow> bool) \<Rightarrow> step list \<Rightarrow> flow \<times> event list" where
  "attempt rj [] = (Next, [])"
| "attempt rj (s # ss) =
     (if rj s then (Thrown, [Did s]) else seq (Next, [Did s]) (attempt rj ss))"

section \<open>Device verification: the polling loop\<close>

text \<open>
  The code the loop would fill in: \<open>getResult.success && getResult.data\<close>, then
  \<open>github_device_code && github_device_code.trim() !== ''\<close>.
\<close>

definition fillable_code :: "get_result \<Rightarrow> string option" where
  "fillable_code getResult =
     (if get_success getResult then
        (case get_data getResult of
           None \<Rightarrow> None
         | Some loginInfo \<Rightarrow>
             (case github_device_code loginInfo of
                None \<Rightarrow> None
              | Some code \<Rightarrow> if code \<noteq> [] \<and> trim code \<noteq> [] then Some code else None))
      else None)"

datatype poll_outcome = Filled string int | Expired int | PollThrew

text \<open>
  The \<open>while\<close> loop, entered with the clock at \<open>now\<close> for its \<open>k\<close>-th test. \<open>Filled c t\<close>:
  the code \<open>c\<close>, fetched at time \<open>t\<close>, was typed into the field and the loop left by
  \<open>break\<close>; \<open>Expired t\<close>: the test failed at time \<open>t\<close>; \<open>PollThrew\<close>: a call rejected.
  A poll that brings no usable code is followed by \<open>randomDelay(5000, 5500)\<close>; the next
  test is taken when that timer has fired, \<open>timer_lag\<close> after the drawn delay.
\<close>

function polling :: "world \<Rightarrow> int \<Rightarrow> int \<Rightarrow> nat \<Rightarrow> int \<Rightarrow> poll_outcome \<times> event list" where
  "polling w startTime maxPollingTime k now =
     (if now - startTime < maxPollingTime then
        if rejects w (GetAccountLoginInfo k) then (PollThrew, [Did (GetAccountLoginInfo k)])
        else
          (let t = now + int (fetch_ms w k) in
           case fillable_code (backend w t) of
             Some code \<Rightarrow>
               (case attempt (rejects w) [ClickOtpField, FillOtpField code] of
                  (Next, tr) \<Rightarrow> (Filled code t, Did (GetAccountLoginInfo k) # tr)
                | (fl, tr) \<Rightarrow> (PollThrew, Did (GetAccountLoginInfo k) # tr))
           | None \<Rightarrow>
               (case polling w startTime maxPollingTime (k + 1)
                       (t + getRandomDelay 5000 5500 (draw w k) + int (timer_lag w k)) of
                  (out, tr) \<Rightarrow> (out, Did (GetAccountLoginInfo k) # tr)))
      else (Expired now, []))"
  by pat_completeness auto
termination
proof (relation "measure (\<lambda>(w, startTime, maxPollingTime, k, now).
                    nat (startTime + maxPollingTime - now))")
  show "wf (measure (\<lambda>(w, startTime, maxPollingTime, k, now).
                    nat (startTime + maxPollingTime - now)))"
    by simp
next
  fix w :: world and startTime maxPollingTime :: int and k :: nat and now x :: int
  assume "now - startTime < maxPollingTime" and "x = now + int (fetch_ms w k)"
  moreover have "0 \<le> Rep_unit_draw (draw w k)"
    using Rep_unit_draw [of "draw w k"] by simp
  then have "0 \<le> \<lfloor>Rep_unit_draw (draw w k) * 501\<rfloor>"
    by simp
  then have "(5000::int) \<le> getRandomDelay 5000 5500 (draw w k)"
    by (simp add: getRandomDelay_def)
  ultimately show "((w, startTime, maxPollingTime, k + 1,
           x + getRandomDelay 5000 5500 (draw w k) + int (timer_lag w k)),
          w, startTime, maxPollingTime, k, now)
         \<in> measure (\<lambda>(w, startTime, maxPollingTime, k, now).
                    nat (startTime + maxPollingTime - now))"
    by simp
qed

text \<open>The equation of the loop is unfolded on demand only.\<close>

declare polling.simps [simp del]

section \<open>GitHub sign-in: the pieces of loginAndGetSession\<close>

record signin =
  baseUrl :: string

definition openBrowser :: "world \<Rightarrow> flow \<times> event list" where
  "openBrowser w =
     seq (attempt (rejects w) [LaunchPersistentContext, ApplyStealthToContext])
         (if has_open_page w then (Next, []) else attempt (rejects w) [NewPage])"

text \<open>
  Already on the console: only a sub-page of it is left by one more navigation. The wait
  for the \<open>/api/user/self\<close> response that follows only logs.
\<close>

definition detectExistingSession :: "world \<Rightarrow> flow \<times> event list" where
  "detectExistingSession w =
     (let currentPageUrl = url_at w AfterGotoLogin in
      if js_includes currentPageUrl ''/console'' then
        if \<not> endsWith currentPageUrl ''/console'' then attempt (rejects w) [GotoConsoleDirect]
        else (Next, [])
      else (Next, []))"

text \<open>
  Steps 2 and 3. The announcement dialog is handled inside its own \<open>try\<close>/\<open>catch\<close>, so it
  never ends the run.
\<close>

definition beginThirdPartyLogin :: "world \<Rightarrow> flow \<times> event list" where
  "beginThirdPartyLogin w =
     seq (Next, [Did DismissAnnouncement])
    (seq (if \<not> providerButtonVisible w
          then seq (attempt (rejects w) [Reload]) (Next, [Did DismissAnnouncementAgain])
          else (Next, []))
         (attempt (rejects w) [ClickProviderButton, AwaitNewPage]))"

definition credentialsEntry :: "world \<Rightarrow> flow \<times> event list" where
  "credentialsEntry w =
     attempt (rejects w) [WaitForLoginField, EnterUsername, EnterPassword, ClickSignIn]"

text \<open>Step 5a, entered when the URL after signing in contains \<open>/sessions/two-factor\<close>.\<close>

definition twoFactorChallenge :: "world \<Rightarrow> login_args \<Rightarrow> flow \<times> event list" where
  "twoFactorChallenge w a =
     (if \<not> truthy_str (twofaSecret a) then (Return None, [Logged LogNoTwofaSecret])
      else
        seq (attempt (rejects w) [GenerateTOTP, EnterTotp])
       (seq (if js_includes (url_at w AfterTotp) ''/sessions/two-factor'' \<and> verifyVisible w
             then attempt (rejects w) [ClickVerify] else (Next, []))
       (seq (if js_includes (url_at w BeforeTrustedDevice) ''/sessions/trusted-device''
             then attempt (rejects w) [SkipTrustedDevice] else (Next, []))
            (let finalTotpUrl = url_at w FinalTotp in
             if js_includes finalTotpUrl ''/sessions/two-factor''
                \<or> js_includes finalTotpUrl ''/login''
             then (Return None, [Logged LogTwofaFailed])
             else (Next, [])))))"

text \<open>
  The polling loop and the test \<open>if (!deviceCodeFilled)\<close> after it. \<open>clock_deadline\<close> is
  the reading of \<open>Date.now()\<close> in \<open>maxPollingTime\<close>, \<open>clock_start\<close> the one kept as
  \<open>startTime\<close>; the first test of the loop is taken at \<open>startTime\<close>.
\<close>

definition awaitDeviceCode :: "world \<Rightarrow> flow \<times> event list" where
  "awaitDeviceCode w =
     (let maxPollingTime = expire_time (addResult w) - clock_deadline w;
          startTime = clock_start w
      in case polling w startTime maxPollingTime 0 startTime of
           (Filled code t, tr) \<Rightarrow> (Next, tr)
         | (Expired t, tr) \<Rightarrow> (Return None, tr @ [Logged LogDeviceCodeTimeout])
         | (PollThrew, tr) \<Rightarrow> (Thrown, tr))"

text \<open>
  Step 5b, entered when the URL after signing in contains
  \<open>github.com/sessions/verified-device\<close>. Sending the notice is inside its own
  \<open>try\<close>/\<open>catch\<close>.
\<close>

definition deviceVerificationChallenge :: "world \<Rightarrow> login_args \<Rightarrow> flow \<times> event list" where
  "deviceVerificationChallenge w a =
     seq (attempt (rejects w) [AddAccountLoginInfo])
         (if add_success (addResult w) then
            seq (if truthy_str (noticeEmail a) \<or> truthy_str (env_EMAIL_TO w)
                 then (Next, [Did SendEmail]) else (Next, []))
           (seq (attempt (rejects w) [WaitForOtpField])
                (awaitDeviceCode w))
          else (Return None, [Logged LogAddLoginInfoFailed]))"

definition awaitCallbackRedirect :: "world \<Rightarrow> flow \<times> event list" where
  "awaitCallbackRedirect w =
     (if js_includes (url_at w AfterConsent) ''/console/token''
      then attempt (rejects w) [GotoConsoleAfterLogin] else (Next, []))"

section \<open>Step 7: extraction (the same text in both sign-in classes)\<close>

definition apiUser_of :: "user_data \<Rightarrow> string option" where
  "apiUser_of userData =
     (if truthy (ud_id userData) then Some (js_String (ud_id userData)) else None)"

text \<open>\<open>userSelfResponse && userSelfResponse.data\<close>.\<close>

definition capturedUser :: "world \<Rightarrow> user_data option" where
  "capturedUser w =
     (case userSelfResponse w of None \<Rightarrow> None | Some resp \<Rightarrow> resp_data resp)"

definition storedUser :: "stored_user \<Rightarrow> user_data option" where
  "storedUser u = (case u of Parsed d \<Rightarrow> Some d | _ \<Rightarrow> None)"

text \<open>\<open>cookies.find((c) => c.name === 'session')\<close> and its \<open>value\<close>.\<close>

definition sessionCookie_of :: "cookie list \<Rightarrow> string option" where
  "sessionCookie_of cs =
     (case find (\<lambda>c. cookie_name c = ''session'') cs of
        None \<Rightarrow> None
      | Some c \<Rightarrow> Some (cookie_value c))"

definition returnResult :: "string option \<Rightarrow> user_data option \<Rightarrow> flow \<times> event list" where
  "returnResult sessionCookie userData =
     (let apiUser = (case userData of None \<Rightarrow> None | Some d \<Rightarrow> apiUser_of d) in
      case (sessionCookie, apiUser) of
        (Some sc, Some au) \<Rightarrow>
          if sc \<noteq> [] \<and> au \<noteq> []
          then (Return (Some \<lparr>session = sc, apiUser = au, userInfo = userData\<rparr>),
                [Logged LogSuccess])
          else (Return None, [Logged LogIncomplete])
      | _ \<Rightarrow> (Return None, [Logged LogIncomplete]))"

definition readSession :: "world \<Rightarrow> user_data option \<Rightarrow> flow \<times> event list" where
  "readSession w userData =
     seq (attempt (rejects w) [ReadCookies])
         (returnResult (sessionCookie_of (cookies w)) userData)"

definition extractSession :: "world \<Rightarrow> flow \<times> event list" where
  "extractSession w =
     (case capturedUser w of
        Some d \<Rightarrow> readSession w (Some d)
      | None \<Rightarrow>
          seq (attempt (rejects w) [ReadLocalStorage])
              (readSession w (storedUser (localStorage_user w))))"

section \<open>GitHub sign-in: the try block, the finally block, the whole run\<close>

definition onLoginPage :: "world \<Rightarrow> bool" where
  "onLoginPage w = js_includes (url_at w AfterGotoLogin) ''/login''"

definition onGithubLogin :: "world \<Rightarrow> bool" where
  "onGithubLogin w = (onLoginPage w \<and> js_includes (url_at w AfterPopup) ''github.com/login'')"

definition needsTwoFactor :: "world \<Rightarrow> bool" where
  "needsTwoFactor w =
     (onGithubLogin w \<and> js_includes (url_at w AfterSignIn) ''/sessions/two-factor'')"

definition needsDeviceVerification :: "world \<Rightarrow> bool" where
  "needsDeviceVerification w =
     (onGithubLogin w
      \<and> js_includes (url_at w AfterSignIn) ''github.com/sessions/verified-device'')"

text \<open>
  The \<open>try\<close> block, cut where the claims look at it. The guards are the conditions of the
  nested \<open>if\<close>s; a piece whose guard fails is skipped.
\<close>

definition throughCredentials :: "world \<Rightarrow> flow \<times> event list" where
  "throughCredentials w =
     seq (openBrowser w)
    (seq (attempt (rejects w) [GotoLogin])
    (seq (detectExistingSession w)
    (seq (guarded (onLoginPage w) (beginThirdPartyLogin w))
         (guarded (onGithubLogin w) (credentialsEntry w)))))"

definition throughTwoFactor :: "world \<Rightarrow> login_args \<Rightarrow> flow \<times> event list" where
  "throughTwoFactor w a =
     seq (throughCredentials w) (guarded (needsTwoFactor w) (twoFactorChallenge w a))"

definition throughDeviceVerification :: "world \<Rightarrow> login_args \<Rightarrow> flow \<times> event list" where
  "throughDeviceVerification w a =
     seq (throughTwoFactor w a)
         (guarded (needsDeviceVerification w) (deviceVerificationChallenge w a))"

definition try_body :: "world \<Rightarrow> login_args \<Rightarrow> flow \<times> event list" where
  "try_body w a =
     seq (throughDeviceVerification w a)
    (seq (guarded (onLoginPage w) (awaitCallbackRedirect w))
         (extractSession w))"

text \<open>
  \<open>context.addCookies\<close>: a cookie replaces the one of the same name, domain and path.
\<close>

definition same_cookie :: "cookie \<Rightarrow> cookie \<Rightarrow> bool" where
  "same_cookie c d =
     (cookie_name c = cookie_name d \<and> cookie_domain c = cookie_domain d
      \<and> cookie_path c = cookie_path d)"

fun addCookies :: "cookie list \<Rightarrow> cookie list \<Rightarrow> cookie list" where
  "addCookies [] jar = jar"
| "addCookies (c # cs) jar = addCookies cs (filter (\<lambda>d. \<not> same_cookie c d) jar @ [c])"

text \<open>
  The cookie part of the \<open>finally\<close> block, for a context that exists: how it ends, its
  events, and the jar it leaves.
\<close>

definition stripProviderCookies :: "world \<Rightarrow> (flow \<times> event list) \<times> cookie list" where
  "stripProviderCookies w =
     (if rejects w CleanupReadCookies then ((Thrown, [Did CleanupReadCookies]), cookies w)
      else
        let allCookies = cookies w;
            agentRouterCookies =
              filter (\<lambda>c. js_includes (cookie_domain c) ''agentrouter.org'') allCookies
        in
        if length agentRouterCookies > 0 then
          if rejects w ClearCookies
          then ((Thrown, [Did CleanupReadCookies, Did ClearCookies]), allCookies)
          else
            let otherCookies =
                  filter (\<lambda>c. \<not> js_includes (cookie_domain c) ''agentrouter.org'') allCookies
            in
            if length otherCookies > 0 then
              if rejects w AddCookies
              then ((Thrown, [Did CleanupReadCookies, Did ClearCookies, Did AddCookies]), [])
              else ((Next, [Did CleanupReadCookies, Did ClearCookies, Did AddCookies]),
                    addCookies otherCookies [])
            else ((Next, [Did CleanupReadCookies, Did ClearCookies]), [])
        else ((Next, [Did CleanupReadCookies]), allCookies))"

definition contextOpened :: "world \<Rightarrow> bool" where
  "contextOpened w = (\<not> rejects w LaunchPersistentContext)"

definition pageOpen :: "world \<Rightarrow> bool" where
  "pageOpen w =
     (contextOpened w \<and> \<not> rejects w ApplyStealthToContext
      \<and> (has_open_page w \<or> \<not> rejects w NewPage) \<and> \<not> page_isClosed w)"

text \<open>
  The \<open>finally\<close> block: its events and the jar of the context afterwards (\<open>None\<close> when no
  context was ever opened). Clearing the storage swallows its own rejection.
\<close>

definition cleanup :: "signin \<Rightarrow> world \<Rightarrow> event list \<times> cookie list option" where
  "cleanup s w =
     (let nonSticky = js_includes (baseUrl s) ''agentrouter.org'';
          strip = (if nonSticky \<and> contextOpened w then stripProviderCookies w
                   else ((Next, []), cookies w));
          body =
            seq (fst strip)
           (seq (guarded (nonSticky \<and> pageOpen w) (Next, [Did ClearStorage]))
           (seq (guarded (pageOpen w) (attempt (rejects w) [ClosePage]))
                (guarded (contextOpened w) (attempt (rejects w) [CloseContext]))))
      in (snd body @ (if fst body = Thrown then [Logged LogCleanupWarning] else []),
          if contextOpened w then Some (snd strip) else None))"

record run_result =
  result :: "session_result option"
  trace :: "event list"
  final_jar :: "cookie list option"

definition loginAndGetSession :: "signin \<Rightarrow> world \<Rightarrow> login_args \<Rightarrow> run_result" where
  "loginAndGetSession s w a =
     (let body = try_body w a; fin = cleanup s w in
      \<lparr>result = (case fst body of Return r \<Rightarrow> r | _ \<Rightarrow> None),
       trace = snd body @ (if fst body = Thrown then [Logged LogError] else []) @ fst fin,
       final_jar = snd fin\<rparr>)"

section \<open>LinuxDo sign-in: loginAndGetSession\<close>

definition linuxdo_onLoginPage :: "world \<Rightarrow> bool" where
  "linuxdo_onLoginPage w =
     (js_includes (url_at w AfterGotoLogin) ''/login''
      \<or> js_includes (url_at w AfterGotoLogin) ''/register?aff='')"

text \<open>
  Step 4 has its own handler, which calls \<open>captureAndUploadScreenshot\<close> and throws again;
  \<open>waitWithScreenshot\<close> does the same for one awaited call.
  \<open>captureAndUploadScreenshot\<close> takes no screenshot of a closed page and catches its own
  errors; \<open>Did Screenshot\<close> is a screenshot taken.
\<close>

definition screenshot :: "world \<Rightarrow> event list" where
  "screenshot w = (if page_isClosed w then [] else [Did Screenshot])"

definition waitLoginPage :: "world \<Rightarrow> flow \<times> event list" where
  "waitLoginPage w =
     (case seq (guarded (\<not> js_includes (url_at w AfterPopup) ''linux.do/login'')
                  (attempt (rejects w) [WaitForLoginUrl]))
               (attempt (rejects w) [WaitForLoginField]) of
        (Thrown, tr) \<Rightarrow> (Thrown, tr @ screenshot w)
      | r \<Rightarrow> r)"

definition waitWithScreenshot :: "world \<Rightarrow> step \<Rightarrow> flow \<times> event list" where
  "waitWithScreenshot w s =
     (if rejects w s then (Thrown, Did s # screenshot w) else (Next, [Did s]))"

text \<open>
  \<open>page && !page.isClosed()\<close>, the test before the two screenshots of
  \<open>loginAndGetSession\<close> itself and before \<open>page.close()\<close>.
\<close>

definition linuxdo_pageOpen :: "world \<Rightarrow> bool" where
  "linuxdo_pageOpen w =
     (\<not> rejects w LaunchBrowser \<and> \<not> rejects w NewContext \<and> \<not> rejects w NewPage
      \<and> \<not> page_isClosed w)"

text \<open>The extraction step; an incomplete result is followed by a screenshot.\<close>

definition linuxdo_extract :: "world \<Rightarrow> flow \<times> event list" where
  "linuxdo_extract w =
     (case extractSession w of
        (Return None, tr) \<Rightarrow>
          (Return None, tr @ (if linuxdo_pageOpen w then screenshot w else []))
      | r \<Rightarrow> r)"

definition linuxdo_try_body :: "world \<Rightarrow> flow \<times> event list" where
  "linuxdo_try_body w =
     seq (attempt (rejects w) [LaunchBrowser, NewContext, NewPage, GotoLogin])
    (seq (detectExistingSession w)
    (seq (guarded (linuxdo_onLoginPage w)
           (seq (beginThirdPartyLogin w)
           (seq (waitLoginPage w)
           (seq (attempt (rejects w) [EnterUsername, EnterPassword, ClickSignIn])
           (seq (waitWithScreenshot w WaitForAuthorizeUrl)
           (seq (waitWithScreenshot w WaitForApproveLink)
           (seq (attempt (rejects w) [ClickAllow])
                (awaitCallbackRedirect w))))))))
         (linuxdo_extract w)))"

definition linuxdo_cleanup :: "world \<Rightarrow> event list" where
  "linuxdo_cleanup w =
     (let browser = \<not> rejects w LaunchBrowser;
          context = (browser \<and> \<not> rejects w NewContext);
          body =
            seq (guarded (linuxdo_pageOpen w) (attempt (rejects w) [ClosePage]))
           (seq (guarded context (attempt (rejects w) [CloseContext]))
                (guarded browser (attempt (rejects w) [CloseBrowser])))
      in snd body @ (if fst body = Thrown then [Logged LogCleanupWarning] else []))"

definition linuxdo_loginAndGetSession :: "world \<Rightarrow> run_result" where
  "linuxdo_loginAndGetSession w =
     (let body = linuxdo_try_body w in
      \<lparr>result = (case fst body of Return r \<Rightarrow> r | _ \<Rightarrow> None),
       trace = snd body
               @ (if fst body = Thrown
                  then Logged LogError # (if linuxdo_pageOpen w then screenshot w else [])
                  else [])
               @ linuxdo_cleanup w,
       final_jar = None\<rparr>)"

section \<open>Batches\<close>




text \<open>
  \<open>processAccounts\<close> of the GitHub class, from index \<open>i\<close> on. \<open>worlds i\<close> is the world the
  \<open>i\<close>-th run meets, \<open>draws i\<close> the random draw of the delay after it. The result is the
  \<open>results\<close> array and the delays slept, in order.
\<close>











section \<open>Witness inputs for the password-change report\<close>

definition data0 :: password_change_data where
  "data0 = \<lparr>record_id = ''r1'', old_username = ''u'', old_password = ''p'',
            new_username = JStr ''v'', new_password = JNull\<rparr>"

definition env_launch_fails :: change_env where
  "env_launch_fails =
     \<lparr>initialize = \<lparr>init_success = False, init_message = ''no chromium''\<rparr>,
      changePassword = (\<lambda>u p nu np. \<lparr>change_success = True, change_message = [],
                          change_userInfo = JNull, is_api_error = JUndefined\<rparr>),
      updatePasswordChange = (\<lambda>p. ApiReturns True)\<rparr>"

definition env_wrong_password :: change_env where
  "env_wrong_password =
     \<lparr>initialize = \<lparr>init_success = True, init_message = ''ok''\<rparr>,
      changePassword = (\<lambda>u p nu np. \<lparr>change_success = False,
                          change_message = ''wrong password'',
                          change_userInfo = JNull, is_api_error = JBool True\<rparr>),
      updatePasswordChange = (\<lambda>p. ApiReturns True)\<rparr>"

section \<open>What the extraction step obtains\<close>

text \<open>
  The value of \<open>userData\<close> and of \<open>apiUser\<close> when step 7 has run: from the captured
  \<open>/api/user/self\<close> response when it has data, from \<open>localStorage\<close> otherwise.
\<close>

definition userData_at_extraction :: "world \<Rightarrow> user_data option" where
  "userData_at_extraction w =
     (case capturedUser w of Some d \<Rightarrow> Some d | None \<Rightarrow> storedUser (localStorage_user w))"

definition apiUser_at_extraction :: "world \<Rightarrow> string option" where
  "apiUser_at_extraction w =
     (case userData_at_extraction w of None \<Rightarrow> None | Some d \<Rightarrow> apiUser_of d)"

text \<open>A piece that ends without a session result.\<close>

definition no_session :: "flow \<times> event list \<Rightarrow> bool" where
  "no_session p = (fst p = Next \<or> fst p = Thrown \<or> fst p = Return None)"

section \<open>Witness inputs for the login run\<close>

text \<open>
  A run that finds the console at once (a reused persistent context), with the user
  response captured and the session cookie in the jar.
\<close>

definition world0 :: world where
  "world0 =
     \<lparr>rejects = (\<lambda>s. False), has_open_page = True,
      url_at = (\<lambda>c. ''https://anyrouter.top/console''),
      providerButtonVisible = True, verifyVisible = False,
      addResult = \<lparr>add_success = True, login_info_id = ''L1'', expire_time = 7000\<rparr>,
      env_EMAIL_TO = None, clock_deadline = 0, clock_start = 0,
      backend = (\<lambda>t. \<lparr>get_success = True, get_data = Some \<lparr>github_device_code = None\<rparr>\<rparr>),
      fetch_ms = (\<lambda>k. 0), draw = (\<lambda>k. draw_of_percent 0), timer_lag = (\<lambda>k. 0),
      userSelfResponse =
        Some \<lparr>resp_data = Some \<lparr>ud_id = JNum 42, ud_username = JStr ''octo''\<rparr>\<rparr>,
      localStorage_user = NoItem,
      cookies = [\<lparr>cookie_name = ''session'', cookie_value = ''tok'',
                  cookie_domain = ''anyrouter.top'', cookie_path = ''/''\<rparr>],
      page_isClosed = False\<rparr>"

definition args0 :: login_args where
  "args0 = \<lparr>accountId = ''a1'', username = ''octo'', password = ''pw'',
            noticeEmail = None, twofaSecret = None\<rparr>"

definition signin0 :: signin where
  "signin0 = \<lparr>baseUrl = ''https://anyrouter.top''\<rparr>"

text \<open>The same run with the session cookie but no user data anywhere.\<close>

definition world_no_user :: world where
  "world_no_user = world0\<lparr>userSelfResponse := None, localStorage_user := NoItem\<rparr>"

text \<open>The same run with the user data but an empty cookie jar.\<close>

definition world_no_cookie :: world where
  "world_no_cookie = world0\<lparr>cookies := []\<rparr>"

section \<open>Vocabulary of the properties\<close>

text \<open>Text that \<open>trim\<close> empties: no character, or white space only.\<close>

definition blank :: "string \<Rightarrow> bool" where
  "blank c = (\<forall>ch \<in> set c. js_whitespace ch)"

text \<open>
  The time of the \<open>k\<close>-th test of the polling loop in a run where no earlier poll found a
  code: the loop starts at \<open>clock_start\<close>, and a poll, the delay drawn after it and the
  lateness of the timer lie between one test and the next.
\<close>

fun test_time :: "world \<Rightarrow> nat \<Rightarrow> int" where
  "test_time w 0 = clock_start w"
| "test_time w (Suc k) =
     test_time w k + int (fetch_ms w k) + getRandomDelay 5000 5500 (draw w k)
       + int (timer_lag w k)"

text \<open>The events of the polls themselves.\<close>

definition poll_event :: "event \<Rightarrow> bool" where
  "poll_event e = (case e of Did (GetAccountLoginInfo k) \<Rightarrow> True | _ \<Rightarrow> False)"

text \<open>The events of the \<open>finally\<close> block of the GitHub sign-in.\<close>

definition cleanup_event :: "event \<Rightarrow> bool" where
  "cleanup_event e =
     (e \<in> {Did CleanupReadCookies, Did ClearCookies, Did AddCookies, Did ClearStorage,
            Did ClosePage, Did CloseContext, Logged LogCleanupWarning})"

text \<open>An event of the login itself, up to the two-factor challenge.\<close>

definition login_event :: "event \<Rightarrow> bool" where
  "login_event e =
     (\<not> cleanup_event e \<and> e \<noteq> Logged LogDeviceCodeTimeout \<and> e \<noteq> Logged LogError
      \<and> (case e of Did (FillOtpField c) \<Rightarrow> False | _ \<Rightarrow> True))"

text \<open>Every event a piece leaves satisfies \<open>P\<close>.\<close>

definition all_events :: "(event \<Rightarrow> bool) \<Rightarrow> 'a \<times> event list \<Rightarrow> bool" where
  "all_events P p = (\<forall>e \<in> set (snd p). P e)"

text \<open>What identifies a cookie in a jar.\<close>

definition cookie_key :: "cookie \<Rightarrow> string \<times> string \<times> string" where
  "cookie_key c = (cookie_name c, cookie_domain c, cookie_path c)"


section \<open>Witness inputs for the challenges and the cleanup\<close>

text \<open>A run that is sent to the device verification, and one sent to the two-factor page.\<close>

fun device_urls :: "checkpoint \<Rightarrow> string" where
  "device_urls AfterGotoLogin = ''https://anyrouter.top/login''"
| "device_urls AfterPopup = ''https://github.com/login''"
| "device_urls AfterSignIn = ''https://github.com/sessions/verified-device/prompt''"
| "device_urls c = ''https://anyrouter.top/console''"

fun twofa_urls :: "checkpoint \<Rightarrow> string" where
  "twofa_urls AfterGotoLogin = ''https://anyrouter.top/login''"
| "twofa_urls AfterPopup = ''https://github.com/login''"
| "twofa_urls c = ''https://github.com/sessions/two-factor/app''"

definition world_device :: world where
  "world_device = world0\<lparr>url_at := device_urls\<rparr>"

text \<open>The backend holds two spaces as the code, for ever.\<close>

definition world_blank :: world where
  "world_blank = world_device
     \<lparr>backend := (\<lambda>t. \<lparr>get_success = True,
                         get_data = Some \<lparr>github_device_code = Some ''  ''\<rparr>\<rparr>)\<rparr>"

text \<open>The operator enters the code 6000 ms after the start; the record expires at 7000.\<close>

definition world_late :: world where
  "world_late = world_device
     \<lparr>backend := (\<lambda>t. \<lparr>get_success = True,
                         get_data = Some \<lparr>github_device_code =
                           (if 6000 \<le> t then Some ''123456'' else None)\<rparr>\<rparr>)\<rparr>"

text \<open>
  The operator enters the code after 1000 ms; the record expires after five minutes. A
  poll takes 40 ms and every sleep ends 3 ms late.
\<close>

definition world_code :: world where
  "world_code = world_device
     \<lparr>addResult := \<lparr>add_success = True, login_info_id = ''L1'', expire_time = 300000\<rparr>,
      fetch_ms := (\<lambda>k. 40), timer_lag := (\<lambda>k. 3),
      backend := (\<lambda>t. \<lparr>get_success = True,
                         get_data = Some \<lparr>github_device_code =
                           (if 1000 \<le> t then Some ''123456'' else None)\<rparr>\<rparr>)\<rparr>"

text \<open>The code is never entered, and the second poll, at 5000 ms, is rejected.\<close>

definition world_poll_rejects :: world where
  "world_poll_rejects = world_device\<lparr>rejects := (\<lambda>s. s = GetAccountLoginInfo 1)\<rparr>"

definition world_twofa :: world where
  "world_twofa = world0\<lparr>url_at := twofa_urls\<rparr>"

text \<open>A sign-in at the non-sticky provider, with one cookie of its own and one of GitHub.\<close>

definition signin_agent :: signin where
  "signin_agent = \<lparr>baseUrl = ''https://agentrouter.org''\<rparr>"

definition world_agent :: world where
  "world_agent = world0
     \<lparr>url_at := (\<lambda>c. ''https://agentrouter.org/console''),
      cookies := [\<lparr>cookie_name = ''session'', cookie_value = ''tok'',
                    cookie_domain = ''agentrouter.org'', cookie_path = ''/''\<rparr>,
                  \<lparr>cookie_name = ''user_session'', cookie_value = ''gh'',
                    cookie_domain = ''github.com'', cookie_path = ''/''\<rparr>]\<rparr>"

text \<open>The same run when \<open>context.addCookies\<close>, or \<open>context.cookies\<close>, rejects in the cleanup.\<close>

definition world_add_rejects :: world where
  "world_add_rejects = world_agent\<lparr>rejects := (\<lambda>s. s = AddCookies)\<rparr>"

definition world_read_rejects :: world where
  "world_read_rejects = world_agent\<lparr>rejects := (\<lambda>s. s = CleanupReadCookies)\<rparr>"

section \<open>Counting the failures of a batch\<close>



section \<open>Witness inputs for the batches\<close>








section \<open>The stealth payload: the page it runs in\<close>

text \<open>
  Values a page script can read from the overridden surfaces.
\<close>

datatype pval =
    PUndefined
  | PBool bool
  | PNum int
  | PInfinity
  | PStr string
  | PList "pval list"
  | PObj "(string \<times> pval) list"

datatype js_error = TypeError string | ReferenceError string

text \<open>
  The own properties of an object that the payload redefines: for each name, the value a
  read yields and the \<open>configurable\<close> attribute.
\<close>

type_synonym props = "string \<Rightarrow> (pval \<times> bool) option"

text \<open>
  The functions the payload replaces, by what they do: the built-in, or the payload's
  replacement around what was there before.
\<close>

datatype query_impl = NativeQuery | WrappedQuery query_impl

datatype getParameter_impl = NativeGetParameter | WrappedGetParameter getParameter_impl

datatype toString_impl = NativeToString | ProxiedToString toString_impl string

datatype battery_impl = NativeBattery | StubBattery

datatype notification_impl = NativeNotification string | StubNotification

datatype enumerate_impl = NativeEnumerate | FilteredEnumerate enumerate_impl

datatype timezone_impl = NativeTimezone int | FixedTimezone int

datatype chrome_state = NativeChrome | StealthChrome

text \<open>
  The global environment of a page, as far as the payload reads or writes it. An
  interface that is \<open>None\<close> is absent: \<open>navigator.permissions\<close>, the two WebGL context
  classes, \<open>navigator.getBattery\<close>, \<open>window.Notification\<close>,
  \<open>navigator.mediaDevices.enumerateDevices\<close>, \<open>window.chrome\<close>.
\<close>

record page =
  navigator_proto :: props
  navigator_own :: props
  chrome :: "chrome_state option"
  permissions_query :: "query_impl option"
  webgl_getParameter :: "getParameter_impl option"
  webgl2_getParameter :: "getParameter_impl option"
  function_toString :: toString_impl
  document_proto :: props
  document_own :: props
  getBattery :: "battery_impl option"
  notification :: "notification_impl option"
  enumerateDevices :: "enumerate_impl option"
  screen_proto :: props
  screen_own :: props
  getTimezoneOffset :: timezone_impl
  console :: "string list"

section \<open>Property access\<close>

text \<open>A read: the own property, else the one of the prototype, else \<open>undefined\<close>.\<close>

definition get_prop :: "props \<Rightarrow> props \<Rightarrow> string \<Rightarrow> pval" where
  "get_prop own proto name =
     (case own name of
        Some (v, c) \<Rightarrow> v
      | None \<Rightarrow> (case proto name of Some (v, c) \<Rightarrow> v | None \<Rightarrow> PUndefined))"

text \<open>
  \<open>delete obj.name\<close> in sloppy mode (the payload is evaluated as a classic script): a
  property that is not configurable stays, without an error.
\<close>

definition delete_prop :: "props \<Rightarrow> string \<Rightarrow> props" where
  "delete_prop ps name =
     (case ps name of Some (v, False) \<Rightarrow> ps | _ \<Rightarrow> ps(name := None))"

text \<open>
  \<open>Object.defineProperty(obj, name, {get: () => v})\<close> on an extensible object. A new
  property is not configurable; an existing configurable one keeps its attributes; an
  existing one that is not configurable cannot take the new getter, which is never the
  function object already installed.
\<close>

definition defineProperty :: "props \<Rightarrow> string \<Rightarrow> pval \<Rightarrow> js_error + props" where
  "defineProperty own name v =
     (case own name of
        None \<Rightarrow> Inr (own(name \<mapsto> (v, False)))
      | Some (old, True) \<Rightarrow> Inr (own(name \<mapsto> (v, True)))
      | Some (old, False) \<Rightarrow> Inl (TypeError (''Cannot redefine property: '' @ name)))"

text \<open>Several definitions in order; the first failure ends them, the earlier ones stay.\<close>

fun defineProperties :: "props \<Rightarrow> (string \<times> pval) list \<Rightarrow> js_error option \<times> props" where
  "defineProperties own [] = (None, own)"
| "defineProperties own ((name, v) # rest) =
     (case defineProperty own name v of
        Inl e \<Rightarrow> (Some e, own)
      | Inr own' \<Rightarrow> defineProperties own' rest)"

section \<open>Function stringification\<close>

text \<open>The function objects whose source text a detection script asks for.\<close>

datatype fn_ref = PermissionsQuery | ChromeSendMessage | FunctionToString | Builtin string

definition native_code :: "string \<Rightarrow> string" where
  "native_code name = ''function '' @ name @ ''() { [native code] }''"

text \<open>
  The \<open>name\<close> of the function: an arrow function assigned to a member expression has the
  empty name, one written in an object literal has the name of its key.
\<close>

definition fn_name :: "page \<Rightarrow> fn_ref \<Rightarrow> string" where
  "fn_name p r =
     (case r of
        PermissionsQuery \<Rightarrow>
          (case permissions_query p of Some NativeQuery \<Rightarrow> ''query'' | _ \<Rightarrow> [])
      | ChromeSendMessage \<Rightarrow> ''sendMessage''
      | FunctionToString \<Rightarrow> ''toString''
      | Builtin name \<Rightarrow> name)"

text \<open>
  What the built-in \<open>Function.prototype.toString\<close> prints: the source text of a script
  function (written short here), the native-code form for a built-in and for a proxy.
  Where \<open>navigator.permissions\<close> is absent, the read of \<open>navigator.permissions.query\<close>
  throws before anything is printed.
\<close>

definition native_toString :: "page \<Rightarrow> fn_ref \<Rightarrow> js_error + string" where
  "native_toString p r =
     (case r of
        PermissionsQuery \<Rightarrow>
          (case permissions_query p of
             None \<Rightarrow> Inl (TypeError ''Cannot read properties of undefined (reading query)'')
           | Some NativeQuery \<Rightarrow> Inr (native_code ''query'')
           | Some (WrappedQuery originalQuery) \<Rightarrow> Inr ''(parameters) => { ... }'')
      | ChromeSendMessage \<Rightarrow> Inr ''() => {}''
      | FunctionToString \<Rightarrow>
          (case function_toString p of
             NativeToString \<Rightarrow> Inr (native_code ''toString'')
           | ProxiedToString target s \<Rightarrow> Inr (native_code []))
      | Builtin name \<Rightarrow> Inr (native_code name))"

text \<open>
  A call of \<open>Function.prototype.toString\<close> on the function \<open>r\<close>: the \<open>apply\<close> trap of the
  payload's proxy, which reads \<open>window.navigator.permissions.query\<close> first.
\<close>

fun call_toString :: "toString_impl \<Rightarrow> page \<Rightarrow> fn_ref \<Rightarrow> js_error + string" where
  "call_toString NativeToString p r = native_toString p r"
| "call_toString (ProxiedToString target nativeToStringFunctionString) p r =
     (case permissions_query p of
        None \<Rightarrow> Inl (TypeError ''Cannot read properties of undefined (reading query)'')
      | Some q \<Rightarrow>
          if r = PermissionsQuery then Inr ''function query() { [native code] }''
          else if fn_name p r = ''sendMessage''
            then Inr ''function sendMessage() { [native code] }''
          else if r = FunctionToString then Inr nativeToStringFunctionString
          else call_toString target p r)"

definition stringify :: "page \<Rightarrow> fn_ref \<Rightarrow> js_error + string" where
  "stringify p r = call_toString (function_toString p) p r"

section \<open>The fourteen measures of stealthScript\<close>

text \<open>Statements in sequence: an exception ends the script, with the page as it is.\<close>

definition andThen :: "js_error option \<times> page \<Rightarrow> (page \<Rightarrow> js_error option \<times> page)
    \<Rightarrow> js_error option \<times> page" where
  "andThen r f = (case fst r of None \<Rightarrow> f (snd r) | Some e \<Rightarrow> r)"

definition define_on_navigator :: "(string \<times> pval) list \<Rightarrow> page \<Rightarrow> js_error option \<times> page" where
  "define_on_navigator kvs p =
     (case defineProperties (navigator_own p) kvs of
        (err, own) \<Rightarrow> (err, p\<lparr>navigator_own := own\<rparr>))"

definition define_on_document :: "(string \<times> pval) list \<Rightarrow> page \<Rightarrow> js_error option \<times> page" where
  "define_on_document kvs p =
     (case defineProperties (document_own p) kvs of
        (err, own) \<Rightarrow> (err, p\<lparr>document_own := own\<rparr>))"

definition define_on_screen :: "(string \<times> pval) list \<Rightarrow> page \<Rightarrow> js_error option \<times> page" where
  "define_on_screen kvs p =
     (case defineProperties (screen_own p) kvs of
        (err, own) \<Rightarrow> (err, p\<lparr>screen_own := own\<rparr>))"

definition removeWebdriver :: "page \<Rightarrow> js_error option \<times> page" where
  "removeWebdriver p =
     define_on_navigator [(''webdriver'', PUndefined)]
       (p\<lparr>navigator_proto := delete_prop (navigator_proto p) ''webdriver''\<rparr>)"

definition fixChrome :: "page \<Rightarrow> js_error option \<times> page" where
  "fixChrome p = (None, p\<lparr>chrome := Some StealthChrome\<rparr>)"

definition navigator_fixes :: "(string \<times> pval) list" where
  "navigator_fixes =
     [(''platform'', PStr ''Win32''),
      (''vendor'', PStr ''Google Inc.''),
      (''productSub'', PStr ''20030107''),
      (''maxTouchPoints'', PNum 0),
      (''hardwareConcurrency'', PNum 8),
      (''deviceMemory'', PNum 8),
      (''connection'',
         PObj [(''effectiveType'', PStr ''4g''), (''rtt'', PNum 50), (''downlink'', PNum 10),
               (''saveData'', PBool False)])]"

definition mime :: "string \<Rightarrow> string \<Rightarrow> string \<Rightarrow> pval" where
  "mime ty suffixes description =
     PObj [(''type'', PStr ty), (''suffixes'', PStr suffixes),
           (''description'', PStr description)]"

definition plugin :: "string \<Rightarrow> string \<Rightarrow> string \<Rightarrow> pval \<Rightarrow> pval \<Rightarrow> pval" where
  "plugin name description filename m0 m1 =
     PObj [(''name'', PStr name), (''description'', PStr description),
           (''filename'', PStr filename), (''length'', PNum 2), (''0'', m0), (''1'', m1)]"

definition pluginArray :: pval where
  "pluginArray =
     PList
       [plugin ''PDF Viewer'' ''Portable Document Format'' ''internal-pdf-viewer''
          (mime ''application/pdf'' ''pdf'' ''Portable Document Format'')
          (mime ''text/pdf'' ''pdf'' ''Portable Document Format''),
        plugin ''Chrome PDF Viewer'' ''Portable Document Format''
          ''mhjfbmdgcfjbbpaeojofohoefgiehjai''
          (mime ''application/pdf'' ''pdf'' ''Portable Document Format'')
          (mime ''text/pdf'' ''pdf'' ''Portable Document Format''),
        plugin ''Native Client'' ''Native Client Executable'' ''internal-nacl-plugin''
          (mime ''application/x-nacl'' ''nexe'' ''Native Client Executable'')
          (mime ''application/x-pnacl'' ''pexe'' ''Portable Native Client Executable'')]"

definition language_fixes :: "(string \<times> pval) list" where
  "language_fixes =
     [(''languages'', PList [PStr ''zh-CN'', PStr ''zh'', PStr ''en-US'', PStr ''en'']),
      (''language'', PStr ''zh-CN'')]"

definition wrapPermissionsQuery :: "page \<Rightarrow> js_error option \<times> page" where
  "wrapPermissionsQuery p =
     (case permissions_query p of
        None \<Rightarrow> (Some (TypeError ''Cannot read properties of undefined (reading query)''), p)
      | Some originalQuery \<Rightarrow> (None, p\<lparr>permissions_query := Some (WrappedQuery originalQuery)\<rparr>))"

definition wrapWebGL :: "page \<Rightarrow> js_error option \<times> page" where
  "wrapWebGL p =
     (case webgl_getParameter p of
        None \<Rightarrow> (Some (ReferenceError ''WebGLRenderingContext is not defined''), p)
      | Some getParameter \<Rightarrow>
          (None, p\<lparr>webgl_getParameter := Some (WrappedGetParameter getParameter)\<rparr>))"

definition wrapWebGL2 :: "page \<Rightarrow> js_error option \<times> page" where
  "wrapWebGL2 p =
     (case webgl2_getParameter p of
        None \<Rightarrow> (Some (ReferenceError ''WebGL2RenderingContext is not defined''), p)
      | Some getParameter2 \<Rightarrow>
          (None, p\<lparr>webgl2_getParameter := Some (WrappedGetParameter getParameter2)\<rparr>))"

definition proxyToString :: "page \<Rightarrow> js_error option \<times> page" where
  "proxyToString p =
     (case stringify p FunctionToString of
        Inl e \<Rightarrow> (Some e, p)
      | Inr nativeToStringFunctionString \<Rightarrow>
          (None, p\<lparr>function_toString :=
                     ProxiedToString (function_toString p) nativeToStringFunctionString\<rparr>))"

definition visibility_fixes :: "(string \<times> pval) list" where
  "visibility_fixes = [(''hidden'', PBool False), (''visibilityState'', PStr ''visible'')]"

text \<open>Measure 10 replaces \<open>getBattery\<close> where it exists; measure 11 adds
  \<open>Notification\<close> where it does not.\<close>

definition fixBattery :: "page \<Rightarrow> js_error option \<times> page" where
  "fixBattery p =
     (if getBattery p \<noteq> None then (None, p\<lparr>getBattery := Some StubBattery\<rparr>) else (None, p))"

definition fixNotification :: "page \<Rightarrow> js_error option \<times> page" where
  "fixNotification p =
     (if notification p = None then (None, p\<lparr>notification := Some StubNotification\<rparr>)
      else (None, p))"

definition fixMediaDevices :: "page \<Rightarrow> js_error option \<times> page" where
  "fixMediaDevices p =
     (case enumerateDevices p of
        None \<Rightarrow> (None, p)
      | Some originalEnumerateDevices \<Rightarrow>
          (None, p\<lparr>enumerateDevices := Some (FilteredEnumerate originalEnumerateDevices)\<rparr>))"

definition screen_fixes :: "(string \<times> pval) list" where
  "screen_fixes =
     [(''availWidth'', PNum 1920), (''availHeight'', PNum 1040), (''width'', PNum 1920),
      (''height'', PNum 1080), (''colorDepth'', PNum 24), (''pixelDepth'', PNum 24)]"

definition fixTimezone :: "page \<Rightarrow> js_error option \<times> page" where
  "fixTimezone p = (None, p\<lparr>getTimezoneOffset := FixedTimezone (- 480)\<rparr>)"

definition logApplied :: "page \<Rightarrow> js_error option \<times> page" where
  "logApplied p = (None, p\<lparr>console := console p @ [''all stealth measures applied'']\<rparr>)"

text \<open>The statements after the first measure, in source order.\<close>

definition later_measures :: "(page \<Rightarrow> js_error option \<times> page) list" where
  "later_measures =
     [fixChrome,
      define_on_navigator navigator_fixes,
      define_on_navigator [(''plugins'', pluginArray)],
      define_on_navigator language_fixes,
      wrapPermissionsQuery,
      wrapWebGL,
      wrapWebGL2,
      proxyToString,
      define_on_document visibility_fixes,
      fixBattery,
      fixNotification,
      fixMediaDevices,
      define_on_screen screen_fixes,
      fixTimezone,
      logApplied]"

text \<open>One evaluation of the payload: the exception it ends with, if any, and the page.\<close>

definition stealthScript :: "page \<Rightarrow> js_error option \<times> page" where
  "stealthScript p = foldl andThen (removeWebdriver p) later_measures"

section \<open>What a detection script observes\<close>

datatype surface =
    NavigatorProp string
  | ScreenProp string
  | DocumentProp string
  | TimezoneOffset
  | Stringification fn_ref
  | BatteryApi
  | NotificationPermission

text \<open>The battery the stub resolves to, and the permission each \<open>Notification\<close> reports.\<close>

definition stub_battery :: pval where
  "stub_battery =
     PObj [(''charging'', PBool True), (''chargingTime'', PNum 0),
           (''dischargingTime'', PInfinity), (''level'', PNum 1)]"

definition observe :: "page \<Rightarrow> surface \<Rightarrow> js_error + pval" where
  "observe p s =
     (case s of
        NavigatorProp name \<Rightarrow> Inr (get_prop (navigator_own p) (navigator_proto p) name)
      | ScreenProp name \<Rightarrow> Inr (get_prop (screen_own p) (screen_proto p) name)
      | DocumentProp name \<Rightarrow> Inr (get_prop (document_own p) (document_proto p) name)
      | TimezoneOffset \<Rightarrow>
          (case getTimezoneOffset p of
             NativeTimezone z \<Rightarrow> Inr (PNum z)
           | FixedTimezone z \<Rightarrow> Inr (PNum z))
      | Stringification r \<Rightarrow>
          (case stringify p r of Inl e \<Rightarrow> Inl e | Inr text \<Rightarrow> Inr (PStr text))
      | BatteryApi \<Rightarrow>
          (case getBattery p of
             None \<Rightarrow> Inr PUndefined
           | Some NativeBattery \<Rightarrow> Inr (PStr ''native battery'')
           | Some StubBattery \<Rightarrow> Inr stub_battery)
      | NotificationPermission \<Rightarrow>
          (case notification p of
             None \<Rightarrow> Inl (ReferenceError ''Notification is not defined'')
           | Some (NativeNotification permission) \<Rightarrow> Inr (PStr permission)
           | Some StubNotification \<Rightarrow> Inr (PStr ''default'')))"

section \<open>Vocabulary of the payload properties\<close>

text \<open>Two pages agree on the \<open>webdriver\<close> property of the navigator and on its prototype.\<close>

definition keeps_webdriver :: "page \<Rightarrow> page \<Rightarrow> bool" where
  "keeps_webdriver q q' =
     (navigator_own q' ''webdriver'' = navigator_own q ''webdriver''
      \<and> navigator_proto q' = navigator_proto q)"

text \<open>The own property \<open>name\<close> is absent or configurable, so it can be defined.\<close>

definition redefinable :: "props \<Rightarrow> string \<Rightarrow> bool" where
  "redefinable own name = (case own name of Some (v, False) \<Rightarrow> False | _ \<Rightarrow> True)"

text \<open>
  A page on which no statement of the payload can throw: the properties it defines can
  be defined, and the interfaces it reads without a test exist (as they do in Chromium).
\<close>

definition accepts_payload :: "page \<Rightarrow> bool" where
  "accepts_payload p =
     ((\<forall>name \<in> set (''webdriver'' # ''plugins'' # map fst (navigator_fixes @ language_fixes)).
         redefinable (navigator_own p) name)
      \<and> (\<forall>name \<in> set (map fst visibility_fixes). redefinable (document_own p) name)
      \<and> (\<forall>name \<in> set (map fst screen_fixes). redefinable (screen_own p) name)
      \<and> permissions_query p \<noteq> None
      \<and> webgl_getParameter p \<noteq> None
      \<and> webgl2_getParameter p \<noteq> None)"

section \<open>Witness inputs for the payload\<close>

text \<open>A new document of an automated Chromium, and one without battery and notifications.\<close>

definition chromium_page :: page where
  "chromium_page =
     \<lparr>navigator_proto =
        [''webdriver'' \<mapsto> (PBool True, True), ''platform'' \<mapsto> (PStr ''Linux x86_64'', True),
         ''languages'' \<mapsto> (PList [PStr ''en-US''], True)],
      navigator_own = Map.empty,
      chrome = None,
      permissions_query = Some NativeQuery,
      webgl_getParameter = Some NativeGetParameter,
      webgl2_getParameter = Some NativeGetParameter,
      function_toString = NativeToString,
      document_proto = [''hidden'' \<mapsto> (PBool True, True),
                        ''visibilityState'' \<mapsto> (PStr ''hidden'', True)],
      document_own = Map.empty,
      getBattery = Some NativeBattery,
      notification = Some (NativeNotification ''denied''),
      enumerateDevices = Some NativeEnumerate,
      screen_proto = [''width'' \<mapsto> (PNum 800, True), ''height'' \<mapsto> (PNum 600, True)],
      screen_own = Map.empty,
      getTimezoneOffset = NativeTimezone 0,
      console = []\<rparr>"

definition bare_page :: page where
  "bare_page = chromium_page\<lparr>getBattery := None, notification := None\<rparr>"

section \<open>Properties\<close>

lemma snd_report: "snd (report env p r) = [p]"
  by (simp add: report_def split: api_outcome.splits)

lemma reports_of_single:
  "snd (executeSingleChangePassword env d) =
     snd (single_try env d) @
       (case fst (single_try env d) of
          Inr r \<Rightarrow> []
        | Inl e \<Rightarrow>
            [\<lparr>up_record_id = record_id d, up_status = 3,
              up_error_reason = Some (''exception: '' @ e),
              up_account_info = None, increment_error_count = Some False\<rparr>])"
  by (simp add: executeSingleChangePassword_def Let_def
      split: prod.splits sum.splits api_outcome.splits)

text \<open>
  C7. A failed browser initialisation is reported with \<open>increment_error_count = false\<close> in
  every call the run makes to the backend. After a successful initialisation, a failed
  change is reported first with \<open>increment_error_count\<close> equal to the test
  \<open>is_api_error === true\<close>; any later report of that run (the one of the \<open>catch\<close> block,
  sent when the first call rejects) is not counted.
\<close>

theorem launch_failure_never_counted:
  "(\<not> init_success (initialize env) \<longrightarrow>
      snd (executeSingleChangePassword env d) \<noteq> [] \<and>
      (\<forall>p \<in> set (snd (executeSingleChangePassword env d)).
         increment_error_count p = Some False)) \<and>
   (init_success (initialize env) \<and>
    \<not> change_success (changePassword env (old_username d) (old_password d) (new_username d)
                        (new_password d)) \<longrightarrow>
      snd (executeSingleChangePassword env d) \<noteq> [] \<and>
      increment_error_count (hd (snd (executeSingleChangePassword env d))) =
        Some (is_api_error (changePassword env (old_username d) (old_password d)
                (new_username d) (new_password d)) = JBool True) \<and>
      (\<forall>p \<in> set (tl (snd (executeSingleChangePassword env d))).
         increment_error_count p = Some False))"
  by (auto simp add: reports_of_single single_try_def snd_report report_def Let_def
      split: sum.splits api_outcome.splits)

theorem launch_failure_never_counted_witness:
  "\<not> init_success (initialize env_launch_fails) \<and>
   map increment_error_count (snd (executeSingleChangePassword env_launch_fails data0))
     = [Some False] \<and>
   init_success (initialize env_wrong_password) \<and>
   \<not> change_success (changePassword env_wrong_password (old_username data0)
         (old_password data0) (new_username data0) (new_password data0)) \<and>
   map increment_error_count (snd (executeSingleChangePassword env_wrong_password data0))
     = [Some True]"
  using launch_failure_never_counted [of env_launch_fails data0]
        launch_failure_never_counted [of env_wrong_password data0]
  by (simp add: env_launch_fails_def env_wrong_password_def data0_def
      executeSingleChangePassword_def single_try_def report_def)

section \<open>Evaluation of the run model\<close>

lemmas run_defs =
  loginAndGetSession_def try_body_def throughDeviceVerification_def throughTwoFactor_def
  throughCredentials_def openBrowser_def detectExistingSession_def beginThirdPartyLogin_def
  credentialsEntry_def twoFactorChallenge_def deviceVerificationChallenge_def
  awaitDeviceCode_def awaitCallbackRedirect_def extractSession_def readSession_def
  returnResult_def capturedUser_def storedUser_def sessionCookie_of_def apiUser_of_def
  onLoginPage_def onGithubLogin_def needsTwoFactor_def needsDeviceVerification_def
  cleanup_def stripProviderCookies_def contextOpened_def pageOpen_def
  seq_def guarded_def endsWith_def Let_def

lemmas linuxdo_defs =
  linuxdo_loginAndGetSession_def linuxdo_try_body_def linuxdo_extract_def
  linuxdo_cleanup_def linuxdo_pageOpen_def linuxdo_onLoginPage_def waitLoginPage_def
  waitWithScreenshot_def screenshot_def

lemma result_run:
  "result (loginAndGetSession s w a) = (case fst (try_body w a) of Return r \<Rightarrow> r | _ \<Rightarrow> None)"
  by (simp add: loginAndGetSession_def Let_def)

lemmas body_defs =
  try_body_def throughDeviceVerification_def throughTwoFactor_def
  throughCredentials_def openBrowser_def detectExistingSession_def beginThirdPartyLogin_def
  credentialsEntry_def twoFactorChallenge_def deviceVerificationChallenge_def
  awaitDeviceCode_def awaitCallbackRedirect_def extractSession_def readSession_def
  returnResult_def capturedUser_def storedUser_def sessionCookie_of_def apiUser_of_def
  onLoginPage_def onGithubLogin_def needsTwoFactor_def needsDeviceVerification_def
  seq_def guarded_def endsWith_def Let_def

lemma linuxdo_result_run:
  "result (linuxdo_loginAndGetSession w) =
     (case fst (linuxdo_try_body w) of Return r \<Rightarrow> r | _ \<Rightarrow> None)"
  by (simp add: linuxdo_loginAndGetSession_def Let_def)

section \<open>Extraction is all or nothing\<close>

lemma no_session_seq: "no_session a \<Longrightarrow> no_session b \<Longrightarrow> no_session (seq a b)"
  by (cases "fst a") (simp_all add: no_session_def seq_def)

lemma no_session_guarded: "no_session p \<Longrightarrow> no_session (guarded g p)"
  by (simp add: guarded_def no_session_def)

lemma no_session_const:
  "no_session (Next, tr)" "no_session (Thrown, tr)" "no_session (Return None, tr)"
  by (simp_all add: no_session_def)

lemma no_session_attempt: "no_session (attempt rj ss)"
  by (induction ss) (auto simp: no_session_def seq_def)

lemma no_session_awaitDeviceCode: "no_session (awaitDeviceCode w)"
  by (simp add: awaitDeviceCode_def no_session_def Let_def split: prod.splits poll_outcome.splits)

lemmas no_session_intros =
  no_session_seq no_session_guarded no_session_const no_session_attempt
  no_session_awaitDeviceCode

lemma no_session_openBrowser: "no_session (openBrowser w)"
  by (simp add: openBrowser_def no_session_intros del: attempt.simps)

lemma no_session_detect: "no_session (detectExistingSession w)"
  by (simp add: detectExistingSession_def Let_def no_session_intros del: attempt.simps)

lemma no_session_begin: "no_session (beginThirdPartyLogin w)"
  by (simp add: beginThirdPartyLogin_def no_session_intros del: attempt.simps)

lemma no_session_credentials: "no_session (credentialsEntry w)"
  by (simp add: credentialsEntry_def no_session_intros del: attempt.simps)

lemma no_session_twoFactor: "no_session (twoFactorChallenge w a)"
  by (simp add: twoFactorChallenge_def Let_def no_session_intros del: attempt.simps)

lemma no_session_deviceVerification: "no_session (deviceVerificationChallenge w a)"
  unfolding deviceVerificationChallenge_def
  by (auto intro!: no_session_intros simp del: attempt.simps)

lemma no_session_callback: "no_session (awaitCallbackRedirect w)"
  by (simp add: awaitCallbackRedirect_def no_session_intros del: attempt.simps)

lemmas no_session_phases =
  no_session_openBrowser no_session_detect no_session_begin no_session_credentials
  no_session_twoFactor no_session_deviceVerification no_session_callback

lemma no_session_throughDeviceVerification: "no_session (throughDeviceVerification w a)"
  unfolding throughDeviceVerification_def throughTwoFactor_def throughCredentials_def
  by (intro no_session_intros no_session_phases)

lemma no_session_not_Some: "no_session p \<Longrightarrow> fst p \<noteq> Return (Some r)"
  by (auto simp: no_session_def)

lemma returnResult_Some:
  "fst (returnResult sc ud) = Return (Some r) \<Longrightarrow>
     sc = Some (session r) \<and> session r \<noteq> [] \<and> userInfo r = ud \<and> apiUser r \<noteq> [] \<and>
     (case ud of None \<Rightarrow> None | Some d \<Rightarrow> apiUser_of d) = Some (apiUser r)"
  by (cases sc; cases ud; cases "apiUser_of (the ud)")
     (auto simp add: returnResult_def Let_def split: if_splits)

lemma seq_Return_Some:
  "fst (seq a b) = Return (Some r) \<Longrightarrow>
     fst a = Return (Some r) \<or> (fst a = Next \<and> fst b = Return (Some r))"
  by (cases "fst a") (simp_all add: seq_def)

lemma readSession_Some:
  "fst (readSession w ud) = Return (Some r) \<Longrightarrow>
     sessionCookie_of (cookies w) = Some (session r) \<and> session r \<noteq> [] \<and> userInfo r = ud
     \<and> apiUser r \<noteq> [] \<and> (case ud of None \<Rightarrow> None | Some d \<Rightarrow> apiUser_of d) = Some (apiUser r)"
proof -
  assume "fst (readSession w ud) = Return (Some r)"
  then have "fst (seq (attempt (rejects w) [ReadCookies])
         (returnResult (sessionCookie_of (cookies w)) ud)) = Return (Some r)"
    by (simp only: readSession_def)
  from seq_Return_Some [OF this] no_session_not_Some [OF no_session_attempt]
  have "fst (returnResult (sessionCookie_of (cookies w)) ud) = Return (Some r)"
    by blast
  from returnResult_Some [OF this] show ?thesis by simp
qed

lemma extractSession_Some:
  assumes "fst (extractSession w) = Return (Some r)"
  shows "sessionCookie_of (cookies w) = Some (session r) \<and> session r \<noteq> []
     \<and> userInfo r = userData_at_extraction w
     \<and> apiUser r \<noteq> [] \<and> apiUser_at_extraction w = Some (apiUser r)"
proof (cases "capturedUser w")
  case None
  with assms have "fst (seq (attempt (rejects w) [ReadLocalStorage])
              (readSession w (storedUser (localStorage_user w)))) = Return (Some r)"
    by (simp add: extractSession_def)
  then have "fst (readSession w (storedUser (localStorage_user w))) = Return (Some r)"
    using no_session_attempt [of "rejects w" "[ReadLocalStorage]"]
    by (auto dest!: seq_Return_Some simp: no_session_def)
  from readSession_Some [OF this] None show ?thesis
    by (simp add: userData_at_extraction_def apiUser_at_extraction_def)
next
  case (Some d)
  with assms have "fst (readSession w (Some d)) = Return (Some r)"
    by (simp add: extractSession_def)
  from readSession_Some [OF this] Some show ?thesis
    by (simp add: userData_at_extraction_def apiUser_at_extraction_def)
qed

lemma try_body_Some:
  assumes "fst (try_body w a) = Return (Some r)"
  shows "fst (extractSession w) = Return (Some r)"
proof -
  have 1: "no_session (throughDeviceVerification w a)"
    by (rule no_session_throughDeviceVerification)
  have 2: "no_session (guarded (onLoginPage w) (awaitCallbackRedirect w))"
    by (intro no_session_intros no_session_phases)
  from assms show ?thesis
    unfolding try_body_def
    using no_session_not_Some [OF 1, of r] no_session_not_Some [OF 2, of r]
    by (auto dest!: seq_Return_Some)
qed

lemma linuxdo_extract_Some:
  "fst (linuxdo_extract w) = Return (Some r) \<Longrightarrow> fst (extractSession w) = Return (Some r)"
proof -
  assume h: "fst (linuxdo_extract w) = Return (Some r)"
  obtain fl tr where e: "extractSession w = (fl, tr)" by (cases "extractSession w")
  show ?thesis
  proof (cases fl)
    case (Return x)
    with h e show ?thesis by (cases x) (simp_all add: linuxdo_extract_def)
  qed (use h e in \<open>simp_all add: linuxdo_extract_def\<close>)
qed

lemma no_session_rethrow:
  "no_session p \<Longrightarrow> no_session (case p of (Thrown, tr) \<Rightarrow> (Thrown, tr @ ev) | r \<Rightarrow> r)"
proof -
  assume h: "no_session p"
  obtain fl tr where e: "p = (fl, tr)" by (cases p)
  from h e show ?thesis by (cases fl) (simp_all add: no_session_def)
qed

lemma no_session_waitLoginPage: "no_session (waitLoginPage w)"
  unfolding waitLoginPage_def
  by (intro no_session_rethrow no_session_intros)

lemma no_session_waitWithScreenshot: "no_session (waitWithScreenshot w s)"
  by (simp add: waitWithScreenshot_def no_session_def)

lemma linuxdo_try_body_Some:
  assumes "fst (linuxdo_try_body w) = Return (Some r)"
  shows "fst (extractSession w) = Return (Some r)"
proof -
  have 1: "no_session (attempt (rejects w) [LaunchBrowser, NewContext, NewPage, GotoLogin])"
    by (rule no_session_attempt)
  have 2: "no_session (detectExistingSession w)" by (rule no_session_detect)
  have 3: "no_session (guarded (linuxdo_onLoginPage w)
           (seq (beginThirdPartyLogin w)
           (seq (waitLoginPage w)
           (seq (attempt (rejects w) [EnterUsername, EnterPassword, ClickSignIn])
           (seq (waitWithScreenshot w WaitForAuthorizeUrl)
           (seq (waitWithScreenshot w WaitForApproveLink)
           (seq (attempt (rejects w) [ClickAllow])
                (awaitCallbackRedirect w))))))))"
    by (intro no_session_intros no_session_begin no_session_waitLoginPage
        no_session_waitWithScreenshot no_session_callback)
  from assms have "fst (linuxdo_extract w) = Return (Some r)"
    unfolding linuxdo_try_body_def
    using no_session_not_Some [OF 1, of r] no_session_not_Some [OF 2, of r]
      no_session_not_Some [OF 3, of r]
    by (auto dest!: seq_Return_Some)
  then show ?thesis by (rule linuxdo_extract_Some)
qed

text \<open>
  C1. In both sign-in classes, a run of \<open>loginAndGetSession\<close> that returns a result \<open>r\<close>
  has found the \<open>session\<close> cookie, whose non-empty value is \<open>session r\<close>, and a user
  identifier, the non-empty \<open>apiUser r\<close>, at the extraction step. When the cookie is
  missing or empty, or the user identifier is missing, the run returns \<open>null\<close>, whatever
  the other one is.
\<close>

theorem extraction_all_or_nothing:
  "(\<forall>r. result (loginAndGetSession s w a) = Some r \<or>
        result (linuxdo_loginAndGetSession w) = Some r \<longrightarrow>
        sessionCookie_of (cookies w) = Some (session r) \<and> session r \<noteq> [] \<and>
        apiUser_at_extraction w = Some (apiUser r) \<and> apiUser r \<noteq> [] \<and>
        userInfo r = userData_at_extraction w) \<and>
   (\<not> truthy_str (sessionCookie_of (cookies w)) \<or> apiUser_at_extraction w = None \<longrightarrow>
        result (loginAndGetSession s w a) = None \<and>
        result (linuxdo_loginAndGetSession w) = None)"
proof -
  have A: "sessionCookie_of (cookies w) = Some (session r) \<and> session r \<noteq> [] \<and>
        apiUser_at_extraction w = Some (apiUser r) \<and> apiUser r \<noteq> [] \<and>
        userInfo r = userData_at_extraction w"
    if "result (loginAndGetSession s w a) = Some r \<or>
        result (linuxdo_loginAndGetSession w) = Some r" for r
  proof -
    from that have "fst (try_body w a) = Return (Some r) \<or> fst (linuxdo_try_body w) = Return (Some r)"
      by (auto simp: loginAndGetSession_def linuxdo_loginAndGetSession_def Let_def
          split: flow.splits)
    then have "fst (extractSession w) = Return (Some r)"
      using try_body_Some linuxdo_try_body_Some by blast
    from extractSession_Some [OF this] show ?thesis by simp
  qed
  have B: "result (loginAndGetSession s w a) = None \<and>
        result (linuxdo_loginAndGetSession w) = None"
    if h: "\<not> truthy_str (sessionCookie_of (cookies w)) \<or> apiUser_at_extraction w = None"
  proof -
    have "result (loginAndGetSession s w a) \<noteq> Some r" for r
      using A [of r] h by (cases "sessionCookie_of (cookies w)") auto
    moreover have "result (linuxdo_loginAndGetSession w) \<noteq> Some r" for r
      using A [of r] h by (cases "sessionCookie_of (cookies w)") auto
    ultimately show ?thesis
      by (metis option.exhaust)
  qed
  from A B show ?thesis by blast
qed

lemma run_world0:
  "result (loginAndGetSession s world0 a) =
     Some \<lparr>session = ''tok'', apiUser = ''42'',
           userInfo = Some \<lparr>ud_id = JNum 42, ud_username = JStr ''octo''\<rparr>\<rparr>"
  by (simp add: result_run body_defs world0_def digits.simps)


lemma run_world_no_cookie: "result (loginAndGetSession s world_no_cookie a) = None"
  by (simp add: result_run body_defs world0_def world_no_cookie_def digits.simps)

lemma linuxdo_run_worlds:
  "result (linuxdo_loginAndGetSession world0) =
     Some \<lparr>session = ''tok'', apiUser = ''42'',
           userInfo = Some \<lparr>ud_id = JNum 42, ud_username = JStr ''octo''\<rparr>\<rparr>"
  "result (linuxdo_loginAndGetSession world_no_user) = None"
  "result (linuxdo_loginAndGetSession world_no_cookie) = None"
  by (simp_all add: linuxdo_result_run linuxdo_try_body_def linuxdo_extract_def
      linuxdo_onLoginPage_def waitLoginPage_def waitWithScreenshot_def body_defs
      world0_def world_no_user_def world_no_cookie_def digits.simps)

theorem extraction_all_or_nothing_witness:
  "result (loginAndGetSession signin0 world0 args0) =
     Some \<lparr>session = ''tok'', apiUser = ''42'',
           userInfo = Some \<lparr>ud_id = JNum 42, ud_username = JStr ''octo''\<rparr>\<rparr> \<and>
   result (linuxdo_loginAndGetSession world0) =
     Some \<lparr>session = ''tok'', apiUser = ''42'',
           userInfo = Some \<lparr>ud_id = JNum 42, ud_username = JStr ''octo''\<rparr>\<rparr> \<and>
   sessionCookie_of (cookies world0) = Some ''tok'' \<and>
   apiUser_at_extraction world0 = Some ''42'' \<and>
   sessionCookie_of (cookies world_no_user) = Some ''tok'' \<and>
   apiUser_at_extraction world_no_user = None \<and>
   result (loginAndGetSession signin0 world_no_user args0) = None \<and>
   result (linuxdo_loginAndGetSession world_no_user) = None \<and>
   sessionCookie_of (cookies world_no_cookie) = None \<and>
   apiUser_at_extraction world_no_cookie = Some ''42'' \<and>
   result (loginAndGetSession signin0 world_no_cookie args0) = None \<and>
   result (linuxdo_loginAndGetSession world_no_cookie) = None"
proof -
  have e:
    "sessionCookie_of (cookies world0) = Some ''tok''"
    "apiUser_at_extraction world0 = Some ''42''"
    "sessionCookie_of (cookies world_no_user) = Some ''tok''"
    "apiUser_at_extraction world_no_user = None"
    "sessionCookie_of (cookies world_no_cookie) = None"
    "apiUser_at_extraction world_no_cookie = Some ''42''"
    by (simp_all add: world0_def world_no_user_def world_no_cookie_def sessionCookie_of_def
        apiUser_at_extraction_def userData_at_extraction_def capturedUser_def storedUser_def
        apiUser_of_def digits.simps)
  from extraction_all_or_nothing [of signin0 world_no_user args0] e(4)
  have "result (loginAndGetSession signin0 world_no_user args0) = None"
    by simp
  then show ?thesis
    by (simp add: e run_world0 run_world_no_cookie linuxdo_run_worlds)
qed

section \<open>The polling loop\<close>

lemma pollingDelay_bounds:
  "5000 \<le> getRandomDelay 5000 5500 u" "getRandomDelay 5000 5500 u \<le> 5500"
proof -
  have r: "0 \<le> Rep_unit_draw u" "Rep_unit_draw u < 1"
    using Rep_unit_draw [of u] by simp_all
  then have "0 \<le> \<lfloor>Rep_unit_draw u * 501\<rfloor>" by simp
  then show "5000 \<le> getRandomDelay 5000 5500 u"
    by (simp add: getRandomDelay_def)
  from r have "Rep_unit_draw u * 501 < 501" by simp
  then have "\<lfloor>Rep_unit_draw u * 501\<rfloor> < 501" by (subst floor_less_iff) simp
  then show "getRandomDelay 5000 5500 u \<le> 5500"
    by (simp add: getRandomDelay_def)
qed

lemma trim_empty_iff: "trim c = [] \<longleftrightarrow> blank c"
proof
  assume "blank c"
  then have d: "dropWhile js_whitespace c = []"
    by (simp add: dropWhile_eq_Nil_conv blank_def)
  show "trim c = []" by (simp only: trim_def d dropWhile.simps rev.simps)
next
  assume "trim c = []"
  then have a: "\<forall>x \<in> set (dropWhile js_whitespace c). js_whitespace x"
    by (simp add: trim_def dropWhile_eq_Nil_conv)
  have "dropWhile js_whitespace c = []"
  proof (rule ccontr)
    assume n: "dropWhile js_whitespace c \<noteq> []"
    then have "\<not> js_whitespace (hd (dropWhile js_whitespace c))"
      by (rule hd_dropWhile)
    moreover have "hd (dropWhile js_whitespace c) \<in> set (dropWhile js_whitespace c)"
      using n by simp
    ultimately show False using a by blast
  qed
  then show "blank c" by (simp add: dropWhile_eq_Nil_conv blank_def)
qed

lemma fillable_code_Some:
  "fillable_code r = Some c \<longleftrightarrow>
     get_success r \<and> (\<exists>info. get_data r = Some info \<and> github_device_code info = Some c)
     \<and> \<not> blank c"
  by (auto simp: fillable_code_def trim_empty_iff blank_def split: option.splits)

lemma polling_stop:
  "\<not> now - startTime < maxPollingTime \<Longrightarrow>
     polling w startTime maxPollingTime k now = (Expired now, [])"
  by (subst polling.simps) simp

lemma polling_continue:
  "now - startTime < maxPollingTime \<Longrightarrow> \<not> rejects w (GetAccountLoginInfo k) \<Longrightarrow>
   fillable_code (backend w (now + int (fetch_ms w k))) = None \<Longrightarrow>
     polling w startTime maxPollingTime k now =
       (case polling w startTime maxPollingTime (k + 1)
               (now + int (fetch_ms w k) + getRandomDelay 5000 5500 (draw w k)
                  + int (timer_lag w k)) of
          (out, tr) \<Rightarrow> (out, Did (GetAccountLoginInfo k) # tr))"
  by (subst polling.simps) (simp add: Let_def)

lemma polling_fill:
  "now - startTime < maxPollingTime \<Longrightarrow> \<not> rejects w (GetAccountLoginInfo k) \<Longrightarrow>
   fillable_code (backend w (now + int (fetch_ms w k))) = Some c \<Longrightarrow>
   \<not> rejects w ClickOtpField \<Longrightarrow> \<not> rejects w (FillOtpField c) \<Longrightarrow>
     polling w startTime maxPollingTime k now =
       (Filled c (now + int (fetch_ms w k)),
        [Did (GetAccountLoginInfo k), Did ClickOtpField, Did (FillOtpField c)])"
  by (subst polling.simps) (simp add: Let_def seq_def)


lemma polling_Filled:
  "polling w startTime maxPollingTime k now = (Filled c T, tr) \<Longrightarrow>
     fillable_code (backend w T) = Some c \<and> tr \<noteq> [] \<and> last tr = Did (FillOtpField c)
     \<and> (\<forall>c'. Did (FillOtpField c') \<in> set tr \<longrightarrow> c' = c)"
proof (induction w startTime maxPollingTime k now arbitrary: tr rule: polling.induct)
  case (1 w startTime maxPollingTime k now)
  let ?t = "now + int (fetch_ms w k)"
  from "1.prems" have c: "now - startTime < maxPollingTime"
    by (rule contrapos_pp) (simp add: polling_stop)
  from "1.prems" c have r: "\<not> rejects w (GetAccountLoginInfo k)"
    by (subst (asm) polling.simps) (auto split: if_splits)
  show ?case
  proof (cases "fillable_code (backend w ?t)")
    case None
    obtain out tr' where p: "polling w startTime maxPollingTime (k + 1)
            (?t + getRandomDelay 5000 5500 (draw w k) + int (timer_lag w k)) = (out, tr')"
      by (cases "polling w startTime maxPollingTime (k + 1)
            (?t + getRandomDelay 5000 5500 (draw w k) + int (timer_lag w k))")
    with "1.prems" c r None have e: "out = Filled c T" "tr = Did (GetAccountLoginInfo k) # tr'"
      by (simp_all add: polling_continue)
    from "1.IH" [OF c r refl None p [unfolded e(1)]]
    show ?thesis using e(2) by auto
  next
    case (Some code)
    with "1.prems" c r show ?thesis
      by (subst (asm) polling.simps)
         (auto simp: Let_def seq_def split: if_splits)
  qed
qed

lemma polling_fills:
  assumes "\<And>t'. t \<le> t' \<Longrightarrow> fillable_code (backend w t') = Some c"
    and "\<And>t'. t' < t \<Longrightarrow> fillable_code (backend w t') = None"
    and "\<And>j. \<not> rejects w (GetAccountLoginInfo j)"
    and "\<not> rejects w ClickOtpField" and "\<not> rejects w (FillOtpField c)"
    and "\<And>j. int (fetch_ms w j) \<le> L"
    and "\<And>j. int (timer_lag w j) \<le> G"
    and "max t startTime + 5500 + G \<le> startTime + maxPollingTime"
    and "now < max t startTime + 5500 + G"
  shows "\<exists>T tr. polling w startTime maxPollingTime k now = (Filled c T, tr)
           \<and> t \<le> T \<and> T < max t startTime + 5500 + G + L"
  using assms
proof (induction w startTime maxPollingTime k now rule: polling.induct)
  case (1 w startTime maxPollingTime k now)
  let ?t = "now + int (fetch_ms w k)"
  have c: "now - startTime < maxPollingTime"
    using "1.prems"(8,9) by simp
  have r: "\<not> rejects w (GetAccountLoginInfo k)" by (rule "1.prems"(3))
  have l: "?t \<le> now + L" using "1.prems"(6) [of k] by simp
  show ?case
  proof (cases "t \<le> ?t")
    case True
    then have "fillable_code (backend w ?t) = Some c" by (rule "1.prems"(1))
    with c r "1.prems"(4,5)
    have "polling w startTime maxPollingTime k now =
       (Filled c ?t, [Did (GetAccountLoginInfo k), Did ClickOtpField, Did (FillOtpField c)])"
      by (simp add: polling_fill)
    moreover have "?t < max t startTime + 5500 + G + L"
      using l "1.prems"(9) by simp
    ultimately show ?thesis using True by blast
  next
    case False
    then have n: "fillable_code (backend w ?t) = None"
      by (intro "1.prems"(2)) simp
    let ?n = "?t + getRandomDelay 5000 5500 (draw w k) + int (timer_lag w k)"
    have "?n < max t startTime + 5500 + G"
      using False pollingDelay_bounds(2) [of "draw w k"] "1.prems"(7) [of k] by simp
    with "1.prems"
    have "\<exists>T tr. polling w startTime maxPollingTime (k + 1) ?n = (Filled c T, tr)
           \<and> t \<le> T \<and> T < max t startTime + 5500 + G + L"
      by (intro "1.IH" [OF c r refl n]) simp_all
    then obtain T tr where
      "polling w startTime maxPollingTime (k + 1) ?n = (Filled c T, tr)"
      "t \<le> T" "T < max t startTime + 5500 + G + L" by blast
    then show ?thesis
      using c r n by (simp add: polling_continue)
  qed
qed

section \<open>Events of a run; the two-factor challenge without a secret\<close>

lemma all_events_seq: "all_events P a \<Longrightarrow> all_events P b \<Longrightarrow> all_events P (seq a b)"
  by (cases "fst a") (auto simp: all_events_def seq_def)

lemma all_events_guarded: "all_events P p \<Longrightarrow> all_events P (guarded g p)"
  by (simp add: all_events_def guarded_def)

lemma all_events_const: "(\<forall>e \<in> set tr. P e) \<Longrightarrow> all_events P (fl, tr)"
  by (simp add: all_events_def)

lemma all_events_attempt: "(\<forall>s \<in> set ss. P (Did s)) \<Longrightarrow> all_events P (attempt rj ss)"
proof (induction ss)
  case Nil
  then show ?case by (simp add: all_events_def)
next
  case (Cons s ss)
  then have "all_events P (attempt rj ss)" by simp
  moreover have "all_events P (Next, [Did s])" "all_events P (Thrown, [Did s])"
    using Cons.prems by (simp_all add: all_events_def)
  ultimately show ?case by (simp add: all_events_seq)
qed

lemmas all_events_intros =
  all_events_seq all_events_guarded all_events_const all_events_attempt

lemma login_event_simps [simp]:
  "login_event (Did LaunchPersistentContext)" "login_event (Did ApplyStealthToContext)"
  "login_event (Did NewPage)" "login_event (Did GotoLogin)"
  "login_event (Did GotoConsoleDirect)" "login_event (Did DismissAnnouncement)"
  "login_event (Did Reload)" "login_event (Did DismissAnnouncementAgain)"
  "login_event (Did ClickProviderButton)" "login_event (Did AwaitNewPage)"
  "login_event (Did WaitForLoginField)" "login_event (Did EnterUsername)"
  "login_event (Did EnterPassword)" "login_event (Did ClickSignIn)"
  "login_event (Did GenerateTOTP)" "login_event (Did EnterTotp)"
  "login_event (Did ClickVerify)" "login_event (Did SkipTrustedDevice)"
  "login_event (Logged LogNoTwofaSecret)" "login_event (Logged LogTwofaFailed)"
  "login_event (Did AddAccountLoginInfo)" "login_event (Did SendEmail)"
  "login_event (Did WaitForOtpField)" "login_event (Did (GetAccountLoginInfo k))"
  by (simp_all add: login_event_def cleanup_event_def)

lemma login_events_throughCredentials: "all_events login_event (throughCredentials w)"
  unfolding throughCredentials_def openBrowser_def detectExistingSession_def
    beginThirdPartyLogin_def credentialsEntry_def Let_def
  by (auto intro!: all_events_intros simp del: attempt.simps)

lemma login_events_twoFactor: "all_events login_event (twoFactorChallenge w a)"
  unfolding twoFactorChallenge_def Let_def
  by (auto intro!: all_events_intros simp del: attempt.simps)

lemma login_events_throughTwoFactor: "all_events login_event (throughTwoFactor w a)"
  unfolding throughTwoFactor_def
  by (intro all_events_intros login_events_throughCredentials login_events_twoFactor)

lemma strip_events: "all_events cleanup_event (fst (stripProviderCookies w))"
  by (simp add: stripProviderCookies_def Let_def all_events_def cleanup_event_def)

lemma cleanup_events: "\<forall>e \<in> set (fst (cleanup s w)). cleanup_event e"
proof -
  define strip where "strip =
     (if js_includes (baseUrl s) ''agentrouter.org'' \<and> contextOpened w
      then stripProviderCookies w else ((Next, []), cookies w))"
  define body where "body =
     seq (fst strip)
     (seq (guarded (js_includes (baseUrl s) ''agentrouter.org'' \<and> pageOpen w)
             (Next, [Did ClearStorage]))
     (seq (guarded (pageOpen w) (attempt (rejects w) [ClosePage]))
          (guarded (contextOpened w) (attempt (rejects w) [CloseContext]))))"
  have 1: "all_events cleanup_event (fst strip)"
    using strip_events [of w] by (simp add: strip_def all_events_def)
  have 2: "all_events cleanup_event body"
    unfolding body_def
    by (intro all_events_seq all_events_guarded all_events_attempt all_events_const 1)
       (simp_all add: cleanup_event_def)
  have "fst (cleanup s w) =
          snd body @ (if fst body = Thrown then [Logged LogCleanupWarning] else [])"
    by (simp only: cleanup_def Let_def fst_conv strip_def body_def)
  with 2 show ?thesis
    by (auto simp: all_events_def cleanup_event_def)
qed


lemma seq_Next: "fst a = Next \<Longrightarrow> seq a b = (fst b, snd a @ snd b)"
  by (simp add: seq_def)

lemma seq_stop: "fst a \<noteq> Next \<Longrightarrow> seq a b = a"
  by (cases "fst a") (simp_all add: seq_def)

text \<open>
  C6. When the credentials have been submitted, the URL read after signing in contains
  \<open>/sessions/two-factor\<close> and \<open>twofaSecret\<close> is \<open>null\<close> or empty, the run returns
  \<open>null\<close>; after the credentials it only logs the missing secret and runs the
  \<open>finally\<close> block, whose events are those of closing the browser.
\<close>

theorem two_factor_without_secret_fails:
  assumes "fst (throughCredentials w) = Next" and "needsTwoFactor w"
    and "\<not> truthy_str (twofaSecret a)"
  shows "result (loginAndGetSession s w a) = None \<and>
         trace (loginAndGetSession s w a) =
           snd (throughCredentials w) @ [Logged LogNoTwofaSecret] @ fst (cleanup s w) \<and>
         (\<forall>e \<in> set (fst (cleanup s w)). cleanup_event e)"
proof -
  have "throughTwoFactor w a =
          (Return None, snd (throughCredentials w) @ [Logged LogNoTwofaSecret])"
    using assms
    by (simp add: throughTwoFactor_def seq_Next guarded_def twoFactorChallenge_def)
  then have "try_body w a =
          (Return None, snd (throughCredentials w) @ [Logged LogNoTwofaSecret])"
    by (simp add: try_body_def throughDeviceVerification_def seq_stop)
  then show ?thesis
    using cleanup_events [of s w] by (simp add: loginAndGetSession_def Let_def)
qed

section \<open>Device verification that is never answered\<close>

lemma attempt_resolves: "\<forall>s \<in> set ss. \<not> rj s \<Longrightarrow> attempt rj ss = (Next, map Did ss)"
  by (induction ss) (simp_all add: seq_def)

lemma count_list_absent: "x \<notin> set xs \<Longrightarrow> count_list xs x = 0"
  by (simp add: count_list_0_iff)

lemma login_event_not:
  "login_event e \<Longrightarrow> e \<noteq> Logged LogDeviceCodeTimeout \<and> e \<noteq> Logged LogError
     \<and> e \<noteq> Did (FillOtpField c) \<and> \<not> cleanup_event e"
  by (auto simp: login_event_def)

lemma poll_event_login: "poll_event e \<Longrightarrow> login_event e"
  by (cases e) (auto simp: poll_event_def split: step.splits)

lemma cleanup_event_not:
  "cleanup_event e \<Longrightarrow> e \<noteq> Logged LogDeviceCodeTimeout \<and> e \<noteq> Logged LogError
     \<and> e \<noteq> Did (FillOtpField c)"
  by (auto simp: cleanup_event_def)

lemma polling_runs_out:
  assumes "\<And>t. fillable_code (backend w t) = None"
    and "\<And>j. \<not> rejects w (GetAccountLoginInfo j)"
    and "now = test_time w k"
  shows "\<exists>n \<ge> k. polling w startTime maxPollingTime k now =
             (Expired (test_time w n), map (\<lambda>j. Did (GetAccountLoginInfo j)) [k ..< n])
           \<and> (\<forall>j. k \<le> j \<and> j < n \<longrightarrow> test_time w j - startTime < maxPollingTime)
           \<and> maxPollingTime \<le> test_time w n - startTime"
  using assms
proof (induction w startTime maxPollingTime k now rule: polling.induct)
  case (1 w startTime maxPollingTime k now)
  show ?case
  proof (cases "now - startTime < maxPollingTime")
    case False
    then have "polling w startTime maxPollingTime k now = (Expired (test_time w k), [])"
      using "1.prems"(3) by (simp add: polling_stop)
    with False "1.prems"(3) show ?thesis
      by (intro exI [of _ k]) simp
  next
    case True
    let ?t = "now + int (fetch_ms w k)"
    let ?n = "?t + getRandomDelay 5000 5500 (draw w k) + int (timer_lag w k)"
    have nx: "?n = test_time w (k + 1)"
      using "1.prems"(3) by simp
    have r: "\<not> rejects w (GetAccountLoginInfo k)" by (rule "1.prems"(2))
    have f: "fillable_code (backend w ?t) = None" by (rule "1.prems"(1))
    from "1.IH" [OF True r refl f "1.prems"(1) "1.prems"(2) nx]
    obtain n where n: "k + 1 \<le> n"
      and p: "polling w startTime maxPollingTime (k + 1) ?n =
             (Expired (test_time w n), map (\<lambda>j. Did (GetAccountLoginInfo j)) [k + 1 ..< n])"
      and b: "\<forall>j. k + 1 \<le> j \<and> j < n \<longrightarrow> test_time w j - startTime < maxPollingTime"
      and e: "maxPollingTime \<le> test_time w n - startTime"
      by blast
    from n have u: "[k ..< n] = k # [k + 1 ..< n]"
      by (simp add: upt_conv_Cons)
    have "polling w startTime maxPollingTime k now =
             (Expired (test_time w n), map (\<lambda>j. Did (GetAccountLoginInfo j)) [k ..< n])"
      using True r f p by (simp add: polling_continue u del: upt_Suc)
    moreover have "\<forall>j. k \<le> j \<and> j < n \<longrightarrow> test_time w j - startTime < maxPollingTime"
    proof (intro allI impI)
      fix j assume j: "k \<le> j \<and> j < n"
      show "test_time w j - startTime < maxPollingTime"
      proof (cases "j = k")
        case True
        with \<open>now - startTime < maxPollingTime\<close> "1.prems"(3) show ?thesis by simp
      next
        case False
        with j b show ?thesis by simp
      qed
    qed
    ultimately show ?thesis using n e by (intro exI [of _ n]) simp
  qed
qed


text \<open>
  C3, amended. Let a run reach the polling loop of the device verification, with the two
  clock readings before the loop in order, and let every poll be answered. If no answer
  ever carries a usable code (the \<open>deviceCode\<close> is never set, or only to blank text),
  there is an \<open>n\<close> such that the loop polls exactly \<open>n\<close> times, each poll after a test
  that finds the deadline of the loop not yet reached, and is left by its test number
  \<open>n\<close>, taken at or after \<open>expire_time\<close>. The run then logs the time-out line, once and
  directly after the last poll, runs the \<open>finally\<close> block and returns \<open>null\<close>; the
  \<open>catch\<close> block is not entered and the code field is never filled.
\<close>

theorem device_code_never_set_expires:
  assumes reach: "fst (throughTwoFactor w a) = Next" "needsDeviceVerification w"
      "\<not> rejects w AddAccountLoginInfo" "add_success (addResult w)"
      "\<not> rejects w WaitForOtpField"
    and polls: "\<forall>k. \<not> rejects w (GetAccountLoginInfo k)"
    and never: "\<forall>t. fillable_code (backend w t) = None"
    and clock: "clock_deadline w \<le> clock_start w"
  shows "\<exists>n. (\<forall>k < n. test_time w k - clock_start w
                        < expire_time (addResult w) - clock_deadline w) \<and>
             expire_time (addResult w) - clock_deadline w \<le> test_time w n - clock_start w \<and>
             expire_time (addResult w) \<le> test_time w n \<and>
             polling w (clock_start w) (expire_time (addResult w) - clock_deadline w) 0
               (clock_start w)
             = (Expired (test_time w n), map (\<lambda>k. Did (GetAccountLoginInfo k)) [0 ..< n]) \<and>
             trace (loginAndGetSession s w a) =
               snd (throughTwoFactor w a) @ [Did AddAccountLoginInfo]
               @ (if truthy_str (noticeEmail a) \<or> truthy_str (env_EMAIL_TO w)
                  then [Did SendEmail] else [])
               @ [Did WaitForOtpField] @ map (\<lambda>k. Did (GetAccountLoginInfo k)) [0 ..< n]
               @ [Logged LogDeviceCodeTimeout] @ fst (cleanup s w) \<and>
             result (loginAndGetSession s w a) = None \<and>
             count_list (trace (loginAndGetSession s w a)) (Logged LogDeviceCodeTimeout) = 1 \<and>
             Logged LogError \<notin> set (trace (loginAndGetSession s w a)) \<and>
             (\<forall>c. Did (FillOtpField c) \<notin> set (trace (loginAndGetSession s w a)))"
proof -
  let ?mx = "expire_time (addResult w) - clock_deadline w"
  let ?polls = "\<lambda>n. map (\<lambda>k. Did (GetAccountLoginInfo k)) [0 ..< n]"
  obtain n where p: "polling w (clock_start w) ?mx 0 (clock_start w) =
        (Expired (test_time w n), ?polls n)"
    and b: "\<forall>j. 0 \<le> j \<and> j < n \<longrightarrow> test_time w j - clock_start w < ?mx"
    and T: "?mx \<le> test_time w n - clock_start w"
    using polling_runs_out [of w "clock_start w" 0 "clock_start w" ?mx] never polls
    by auto
  from T clock have exp: "expire_time (addResult w) \<le> test_time w n" by simp
  define tr where "tr = ?polls n"
  have tr: "\<forall>e \<in> set tr. poll_event e"
    by (auto simp: tr_def poll_event_def)
  define em where "em =
     (if truthy_str (noticeEmail a) \<or> truthy_str (env_EMAIL_TO w) then [Did SendEmail] else [])"
  define mid where "mid = [Did AddAccountLoginInfo] @ em @ [Did WaitForOtpField] @ tr"
  have aw: "awaitDeviceCode w = (Return None, tr @ [Logged LogDeviceCodeTimeout])"
    using p by (simp add: awaitDeviceCode_def Let_def tr_def)
  have dv: "deviceVerificationChallenge w a = (Return None, mid @ [Logged LogDeviceCodeTimeout])"
    using reach(3,4,5) aw
    by (simp add: deviceVerificationChallenge_def seq_def em_def mid_def)
  have th: "throughDeviceVerification w a =
          (Return None, snd (throughTwoFactor w a) @ mid @ [Logged LogDeviceCodeTimeout])"
    using reach(1,2) dv by (simp add: throughDeviceVerification_def seq_Next guarded_def)
  then have tb: "try_body w a =
          (Return None, snd (throughTwoFactor w a) @ mid @ [Logged LogDeviceCodeTimeout])"
    by (simp add: try_body_def seq_stop)
  have run: "result (loginAndGetSession s w a) = None"
    "trace (loginAndGetSession s w a) =
       snd (throughTwoFactor w a) @ mid @ [Logged LogDeviceCodeTimeout] @ fst (cleanup s w)"
    using tb by (simp_all add: loginAndGetSession_def Let_def)
  have q0: "\<forall>e \<in> set (snd (throughTwoFactor w a)). login_event e"
    using login_events_throughTwoFactor [of w a] by (simp add: all_events_def)
  have q1: "\<forall>e \<in> set mid. login_event e"
    using tr poll_event_login by (auto simp: mid_def em_def)
  have q2: "\<forall>e \<in> set (fst (cleanup s w)). cleanup_event e"
    by (rule cleanup_events)
  have n1: "\<not> login_event (Logged LogDeviceCodeTimeout)"
      "\<not> cleanup_event (Logged LogDeviceCodeTimeout)"
      "\<not> login_event (Logged LogError)" "\<not> cleanup_event (Logged LogError)"
      "\<not> login_event (Did (FillOtpField c))" "\<not> cleanup_event (Did (FillOtpField c))" for c
    by (simp_all add: login_event_def cleanup_event_def)
  have a1: "Logged LogDeviceCodeTimeout \<notin> set (snd (throughTwoFactor w a))"
      "Logged LogDeviceCodeTimeout \<notin> set mid"
      "Logged LogDeviceCodeTimeout \<notin> set (fst (cleanup s w))"
    using q0 q1 q2 n1(1,2) by blast+
  have cover: "\<forall>e \<in> set (trace (loginAndGetSession s w a)).
      login_event e \<or> cleanup_event e \<or> e = Logged LogDeviceCodeTimeout"
    using q0 q1 q2 by (auto simp: run(2))
  have a2: "Logged LogError \<notin> set (trace (loginAndGetSession s w a))"
  proof
    assume "Logged LogError \<in> set (trace (loginAndGetSession s w a))"
    with cover have "login_event (Logged LogError) \<or> cleanup_event (Logged LogError)
        \<or> Logged LogError = Logged LogDeviceCodeTimeout" by blast
    then show False using n1(3,4) by simp
  qed
  have a3: "Did (FillOtpField c) \<notin> set (trace (loginAndGetSession s w a))" for c
  proof
    assume "Did (FillOtpField c) \<in> set (trace (loginAndGetSession s w a))"
    with cover have "login_event (Did (FillOtpField c)) \<or> cleanup_event (Did (FillOtpField c))
        \<or> Did (FillOtpField c) = Logged LogDeviceCodeTimeout" by blast
    then show False using n1(5,6) [of c] by simp
  qed
  have cnt: "count_list (trace (loginAndGetSession s w a)) (Logged LogDeviceCodeTimeout) = 1"
    using a1 by (simp add: run(2) count_list_absent)
  have tq: "trace (loginAndGetSession s w a) =
               snd (throughTwoFactor w a) @ [Did AddAccountLoginInfo]
               @ (if truthy_str (noticeEmail a) \<or> truthy_str (env_EMAIL_TO w)
                  then [Did SendEmail] else [])
               @ [Did WaitForOtpField] @ ?polls n
               @ [Logged LogDeviceCodeTimeout] @ fst (cleanup s w)"
    by (simp only: run(2) mid_def em_def tr_def append_assoc)
  show ?thesis
  proof (intro exI [of _ n] conjI allI impI)
    fix k assume "k < n"
    then show "test_time w k - clock_start w < ?mx" using b by simp
  next
    show "?mx \<le> test_time w n - clock_start w" by (rule T)
    show "expire_time (addResult w) \<le> test_time w n" by (rule exp)
    show "polling w (clock_start w) ?mx 0 (clock_start w) = (Expired (test_time w n), ?polls n)"
      by (rule p)
    show "trace (loginAndGetSession s w a) =
               snd (throughTwoFactor w a) @ [Did AddAccountLoginInfo]
               @ (if truthy_str (noticeEmail a) \<or> truthy_str (env_EMAIL_TO w)
                  then [Did SendEmail] else [])
               @ [Did WaitForOtpField] @ ?polls n
               @ [Logged LogDeviceCodeTimeout] @ fst (cleanup s w)" by (rule tq)
    show "result (loginAndGetSession s w a) = None" by (rule run(1))
    show "count_list (trace (loginAndGetSession s w a)) (Logged LogDeviceCodeTimeout) = 1"
      by (rule cnt)
    show "Logged LogError \<notin> set (trace (loginAndGetSession s w a))" by (rule a2)
    show "Did (FillOtpField c) \<notin> set (trace (loginAndGetSession s w a))" for c by (rule a3)
  qed
qed

section \<open>The cookie jar after the finally block\<close>

lemma addCookies_fresh:
  "distinct (map cookie_key (jar @ cs)) \<Longrightarrow> addCookies cs jar = jar @ cs"
proof (induction cs arbitrary: jar)
  case Nil
  then show ?case by simp
next
  case (Cons c cs)
  have "\<forall>d \<in> set jar. \<not> same_cookie c d"
    using Cons.prems by (auto simp: same_cookie_def cookie_key_def)
  then have f: "filter (\<lambda>d. \<not> same_cookie c d) jar = jar"
    by (simp add: filter_id_conv)
  have "distinct (map cookie_key ((jar @ [c]) @ cs))"
    using Cons.prems by simp
  from Cons.IH [OF this] f show ?case by simp
qed

lemma strip_jar:
  assumes "\<not> rejects w CleanupReadCookies" "\<not> rejects w ClearCookies"
    "\<not> rejects w AddCookies" "distinct (map cookie_key (cookies w))"
  shows "snd (stripProviderCookies w) =
           filter (\<lambda>c. \<not> js_includes (cookie_domain c) ''agentrouter.org'') (cookies w)"
proof -
  let ?P = "\<lambda>c. js_includes (cookie_domain c) ''agentrouter.org''"
  have d: "distinct (map cookie_key (filter (\<lambda>c. \<not> ?P c) (cookies w)))"
    using assms(4) by (simp add: distinct_map_filter)
  have a: "addCookies (filter (\<lambda>c. \<not> ?P c) (cookies w)) [] = filter (\<lambda>c. \<not> ?P c) (cookies w)"
    using addCookies_fresh [of "[]"] d by simp
  have n: "filter (\<lambda>c. \<not> ?P c) (cookies w) = cookies w" if "filter ?P (cookies w) = []"
    using that by (simp add: filter_empty_conv filter_id_conv)
  show ?thesis
    using assms(1-3) a n
    by (simp add: stripProviderCookies_def Let_def)
qed

section \<open>No cleanup event before the finally block\<close>

lemma not_cleanup_simps:
  "\<not> cleanup_event (Did (GetAccountLoginInfo k))" "\<not> cleanup_event (Did ClickOtpField)"
  "\<not> cleanup_event (Did (FillOtpField c))" "\<not> cleanup_event (Logged LogDeviceCodeTimeout)"
  "\<not> cleanup_event (Did GotoConsoleAfterLogin)" "\<not> cleanup_event (Did ReadLocalStorage)"
  "\<not> cleanup_event (Did ReadCookies)" "\<not> cleanup_event (Logged LogSuccess)"
  "\<not> cleanup_event (Logged LogIncomplete)" "\<not> cleanup_event (Logged LogError)"
  "\<not> cleanup_event (Did AddAccountLoginInfo)" "\<not> cleanup_event (Did SendEmail)"
  "\<not> cleanup_event (Did WaitForOtpField)" "\<not> cleanup_event (Logged LogAddLoginInfoFailed)"
  by (simp_all add: cleanup_event_def)

lemma all_events_weaken:
  "all_events P p \<Longrightarrow> (\<And>e. P e \<Longrightarrow> Q e) \<Longrightarrow> all_events Q p"
  by (simp add: all_events_def)

lemma all_events_cons: "P e \<Longrightarrow> all_events P (fl, tr) \<Longrightarrow> all_events P (fl', e # tr)"
  by (simp add: all_events_def)

lemma polling_events: "all_events (\<lambda>e. \<not> cleanup_event e) (polling w st mx k now)"
proof (induction w st mx k now rule: polling.induct)
  case (1 w st mx k now)
  let ?t = "now + int (fetch_ms w k)"
  show ?case
  proof (cases "now - st < mx")
    case False
    then show ?thesis by (simp add: polling_stop all_events_def)
  next
    case c: True
    show ?thesis
    proof (cases "rejects w (GetAccountLoginInfo k)")
      case True
      with c show ?thesis
        by (subst polling.simps) (simp add: all_events_def not_cleanup_simps)
    next
      case r: False
      show ?thesis
      proof (cases "fillable_code (backend w ?t)")
        case None
        obtain out tr where p: "polling w st mx (k + 1)
            (?t + getRandomDelay 5000 5500 (draw w k) + int (timer_lag w k)) = (out, tr)"
          by (cases "polling w st mx (k + 1)
                (?t + getRandomDelay 5000 5500 (draw w k) + int (timer_lag w k))")
        from "1.IH" [OF c r refl None] p
        have "all_events (\<lambda>e. \<not> cleanup_event e) (out, tr)" by simp
        then have "all_events (\<lambda>e. \<not> cleanup_event e) (out, Did (GetAccountLoginInfo k) # tr)"
          by (intro all_events_cons not_cleanup_simps)
        with c r None p show ?thesis by (simp add: polling_continue)
      next
        case (Some code)
        obtain fl tr where at: "attempt (rejects w) [ClickOtpField, FillOtpField code] = (fl, tr)"
          by (cases "attempt (rejects w) [ClickOtpField, FillOtpField code]")
        have "all_events (\<lambda>e. \<not> cleanup_event e)
                (attempt (rejects w) [ClickOtpField, FillOtpField code])"
          by (intro all_events_attempt) (simp add: not_cleanup_simps)
        with at have "all_events (\<lambda>e. \<not> cleanup_event e) (x, Did (GetAccountLoginInfo k) # tr)"
          for x :: poll_outcome
          by (simp add: all_events_def not_cleanup_simps)
        with c r Some at show ?thesis
          by (subst polling.simps) (simp add: Let_def del: attempt.simps split: flow.splits)
      qed
    qed
  qed
qed

lemma awaitDeviceCode_events: "all_events (\<lambda>e. \<not> cleanup_event e) (awaitDeviceCode w)"
proof -
  let ?p = "polling w (clock_start w) (expire_time (addResult w) - clock_deadline w) 0
              (clock_start w)"
  obtain out tr where p: "?p = (out, tr)" by (cases ?p)
  with polling_events [of w "clock_start w" "expire_time (addResult w) - clock_deadline w" 0
      "clock_start w"]
  have "\<forall>e \<in> set tr. \<not> cleanup_event e" by (simp add: all_events_def)
  with p show ?thesis
    by (cases out) (simp_all add: awaitDeviceCode_def Let_def all_events_def not_cleanup_simps)
qed

lemma deviceVerification_events:
  "all_events (\<lambda>e. \<not> cleanup_event e) (deviceVerificationChallenge w a)"
  unfolding deviceVerificationChallenge_def
  by (auto intro!: all_events_intros awaitDeviceCode_events simp: not_cleanup_simps
      simp del: attempt.simps)

lemma returnResult_events: "all_events (\<lambda>e. \<not> cleanup_event e) (returnResult sc ud)"
  by (cases sc; cases ud; cases "apiUser_of (the ud)")
     (simp_all add: returnResult_def Let_def all_events_def not_cleanup_simps)

lemma extractSession_events: "all_events (\<lambda>e. \<not> cleanup_event e) (extractSession w)"
  unfolding extractSession_def readSession_def
  by (cases "capturedUser w")
     (auto intro!: all_events_intros returnResult_events simp: not_cleanup_simps
      simp del: attempt.simps)

lemma try_body_events: "all_events (\<lambda>e. \<not> cleanup_event e) (try_body w a)"
proof -
  have "all_events (\<lambda>e. \<not> cleanup_event e) (throughTwoFactor w a)"
    using login_events_throughTwoFactor by (rule all_events_weaken) (simp add: login_event_def)
  moreover have "all_events (\<lambda>e. \<not> cleanup_event e) (awaitCallbackRedirect w)"
    unfolding awaitCallbackRedirect_def
    by (auto intro!: all_events_intros simp: not_cleanup_simps simp del: attempt.simps)
  ultimately show ?thesis
    unfolding try_body_def throughDeviceVerification_def
    by (intro all_events_seq all_events_guarded deviceVerification_events
        extractSession_events)
qed

text \<open>
  C9, amended. For a base URL that contains \<open>agentrouter.org\<close>, on every run that opened
  a context (whatever way the \<open>try\<close> block ended), when the three cookie calls of the
  \<open>finally\<close> block (\<open>context.cookies\<close>, \<open>clearCookies\<close>, \<open>addCookies\<close>) resolve and the
  jar holds one cookie per name, domain and path: the jar the context is left with is
  the old jar without the cookies whose domain contains \<open>agentrouter.org\<close>, so none of
  those is left and every other cookie is still there; and the stripping comes first in
  the \<open>finally\<close> block, before any closing.
\<close>

theorem non_sticky_cleanup_strips_provider_cookies:
  assumes "js_includes (baseUrl s) ''agentrouter.org''" and "contextOpened w"
    and "\<not> rejects w CleanupReadCookies" and "\<not> rejects w ClearCookies"
    and "\<not> rejects w AddCookies" and "distinct (map cookie_key (cookies w))"
  shows "\<exists>jar pre post.
           final_jar (loginAndGetSession s w a) = Some jar \<and>
           jar = filter (\<lambda>c. \<not> js_includes (cookie_domain c) ''agentrouter.org'') (cookies w) \<and>
           (\<forall>c \<in> set jar. \<not> js_includes (cookie_domain c) ''agentrouter.org'') \<and>
           (\<forall>c \<in> set (cookies w).
              \<not> js_includes (cookie_domain c) ''agentrouter.org'' \<longrightarrow> c \<in> set jar) \<and>
           trace (loginAndGetSession s w a) = pre @ snd (fst (stripProviderCookies w)) @ post \<and>
           (\<forall>e \<in> set pre. \<not> cleanup_event e) \<and>
           Did CloseContext \<notin> set (snd (fst (stripProviderCookies w)))"
proof -
  let ?jar = "filter (\<lambda>c. \<not> js_includes (cookie_domain c) ''agentrouter.org'') (cookies w)"
  let ?err = "if fst (try_body w a) = Thrown then [Logged LogError] else []"
  have j: "snd (stripProviderCookies w) = ?jar"
    using assms(3-6) by (rule strip_jar)
  have ok: "fst (fst (stripProviderCookies w)) = Next"
    using assms(3-5) by (simp add: stripProviderCookies_def Let_def)
  have fj: "final_jar (loginAndGetSession s w a) = Some ?jar"
    using assms(1,2) j by (simp add: loginAndGetSession_def cleanup_def Let_def)
  obtain rest where cl: "fst (cleanup s w) = snd (fst (stripProviderCookies w)) @ rest"
    using assms(1,2) ok by (simp add: cleanup_def Let_def seq_Next)
  have tr: "trace (loginAndGetSession s w a) =
              (snd (try_body w a) @ ?err) @ snd (fst (stripProviderCookies w)) @ rest"
    using cl by (simp add: loginAndGetSession_def Let_def)
  have pre: "\<forall>e \<in> set (snd (try_body w a) @ ?err). \<not> cleanup_event e"
    using try_body_events [of w a] by (auto simp: all_events_def not_cleanup_simps)
  have nc: "Did CloseContext \<notin> set (snd (fst (stripProviderCookies w)))"
    by (simp add: stripProviderCookies_def Let_def)
  show ?thesis
    using fj tr pre nc by (intro exI [of _ ?jar] exI [of _ "snd (try_body w a) @ ?err"]
        exI [of _ rest]) simp
qed

section \<open>The device code: when it is filled in\<close>

lemmas world_defs =
  world0_def world_device_def world_blank_def world_late_def world_code_def world_twofa_def
  world_agent_def signin_agent_def signin0_def args0_def


text \<open>
  C2, as stated, fails. In \<open>world_late\<close> the code is set at 6000 ms, before the expiry at
  7000 ms; the loop polls at 0 and at 5000 ms, tests its deadline again at 10000 ms and
  gives up without another poll. In \<open>world_blank\<close> the stored code is not empty (two
  spaces) from the start, and the loop never fills it.
\<close>

theorem late_device_code_is_missed:
  "fillable_code (backend world_late 5000) = None \<and>
   fillable_code (backend world_late 6000) = Some ''123456'' \<and>
   fillable_code (backend world_late 10000) = Some ''123456'' \<and>
   (6000::int) < expire_time (addResult world_late) \<and>
   polling world_late (clock_start world_late)
     (expire_time (addResult world_late) - clock_deadline world_late) 0
     (clock_start world_late)
   = (Expired 10000, [Did (GetAccountLoginInfo 0), Did (GetAccountLoginInfo 1)]) \<and>
   result (loginAndGetSession signin0 world_late args0) = None \<and>
   get_data (backend world_blank 0) = Some \<lparr>github_device_code = Some ''  ''\<rparr> \<and>
   polling world_blank (clock_start world_blank)
     (expire_time (addResult world_blank) - clock_deadline world_blank) 0
     (clock_start world_blank)
   = (Expired 10000, [Did (GetAccountLoginInfo 0), Did (GetAccountLoginInfo 1)])"
  by (simp add: world_defs run_defs polling.simps fillable_code_def trim_def js_whitespace_def
      getRandomDelay_def draw_of_percent.rep_eq)

text \<open>
  C2, amended. Let every poll answered at time \<open>t\<close> or later return the stored code \<open>c\<close>,
  which has a character that is not white space, and no poll answered before \<open>t\<close> return
  a usable code. Let every poll be answered, within \<open>L\<close> ms of the test of the loop before
  it, let every sleep of the loop end at most \<open>G\<close> ms after its delay, let the click and
  the fill of the \<open>#otp\<close> field resolve, and let the two clock readings before the loop be
  in order. If \<open>t\<close> and the start of the loop both lie at least \<open>5500 + G\<close> ms (the
  longest time between an answer and the next test) before \<open>expire_time\<close>, then the loop
  ends by filling the field, with a code fetched at a time \<open>T\<close> with
  \<open>t \<le> T < max t start + 5500 + G + L\<close>, and what it fills in is exactly the stored
  code \<open>c\<close>; the events of the device step are those of the loop, the fill being the
  last one.
\<close>

theorem device_code_filled_within_interval:
  assumes "\<forall>t' \<ge> t. fillable_code (backend w t') = Some c"
    and "\<forall>t' < t. fillable_code (backend w t') = None"
    and "\<forall>j. \<not> rejects w (GetAccountLoginInfo j)"
    and "\<not> rejects w ClickOtpField" and "\<not> rejects w (FillOtpField c)"
    and "\<forall>j. int (fetch_ms w j) \<le> L"
    and "\<forall>j. int (timer_lag w j) \<le> G"
    and "clock_deadline w \<le> clock_start w"
    and "max t (clock_start w) + 5500 + G \<le> expire_time (addResult w)"
  shows "\<exists>T tr. polling w (clock_start w) (expire_time (addResult w) - clock_deadline w) 0
                   (clock_start w) = (Filled c T, tr)
           \<and> t \<le> T \<and> T < max t (clock_start w) + 5500 + G + L
           \<and> last tr = Did (FillOtpField c)
           \<and> (\<forall>c'. Did (FillOtpField c') \<in> set tr \<longrightarrow> c' = c)
           \<and> (\<exists>info. get_data (backend w T) = Some info \<and> github_device_code info = Some c)
           \<and> awaitDeviceCode w = (Next, tr)"
proof -
  let ?mx = "expire_time (addResult w) - clock_deadline w"
  have g: "0 \<le> G"
    using assms(7) [rule_format, of 0] by simp
  have "max t (clock_start w) + 5500 + G \<le> clock_start w + ?mx"
    using assms(8,9) by simp
  moreover have "clock_start w < max t (clock_start w) + 5500 + G"
    using g by simp
  ultimately obtain T tr where
    p: "polling w (clock_start w) ?mx 0 (clock_start w) = (Filled c T, tr)"
    and T: "t \<le> T" "T < max t (clock_start w) + 5500 + G + L"
    using polling_fills [of t w c L G "clock_start w" ?mx "clock_start w" 0] assms(1-7)
    by blast
  from polling_Filled [OF p]
  have f: "fillable_code (backend w T) = Some c" "last tr = Did (FillOtpField c)"
    "\<forall>c'. Did (FillOtpField c') \<in> set tr \<longrightarrow> c' = c"
    by simp_all
  from f(1) have "\<exists>info. get_data (backend w T) = Some info \<and> github_device_code info = Some c"
    by (simp add: fillable_code_Some)
  moreover have "awaitDeviceCode w = (Next, tr)"
    using p by (simp add: awaitDeviceCode_def Let_def)
  ultimately show ?thesis using p T f(2,3) by blast
qed

theorem device_code_filled_within_interval_witness:
  "polling world_code (clock_start world_code)
     (expire_time (addResult world_code) - clock_deadline world_code) 0
     (clock_start world_code)
   = (Filled ''123456'' 5083,
      [Did (GetAccountLoginInfo 0), Did (GetAccountLoginInfo 1), Did ClickOtpField,
       Did (FillOtpField ''123456'')]) \<and>
   fillable_code (backend world_code 999) = None \<and>
   fillable_code (backend world_code 1000) = Some ''123456'' \<and>
   max 1000 (clock_start world_code) + 5500 + 3 \<le> expire_time (addResult world_code)"
  using device_code_filled_within_interval [of 1000 world_code "''123456''" 40 3]
  by (simp add: world_defs polling.simps fillable_code_def trim_def js_whitespace_def
      getRandomDelay_def draw_of_percent.rep_eq seq_def)



text \<open>
  C3, as stated, fails when a poll is rejected. In \<open>world_poll_rejects\<close> the code is never
  entered and the record expires at 7000 ms; the second poll, after the test at 5000 ms,
  rejects. The exception leaves the loop there, before the expiry; the run logs the
  error of the \<open>catch\<close> block, never the time-out, and returns \<open>null\<close>.
\<close>

theorem rejected_poll_ends_the_loop_early:
  "needsDeviceVerification world_poll_rejects \<and>
   fillable_code (backend world_poll_rejects 0) = None \<and>
   fillable_code (backend world_poll_rejects 5000) = None \<and>
   clock_start world_poll_rejects = 0 \<and>
   expire_time (addResult world_poll_rejects) = 7000 \<and>
   polling world_poll_rejects (clock_start world_poll_rejects)
     (expire_time (addResult world_poll_rejects) - clock_deadline world_poll_rejects) 0
     (clock_start world_poll_rejects)
   = (PollThrew, [Did (GetAccountLoginInfo 0), Did (GetAccountLoginInfo 1)]) \<and>
   test_time world_poll_rejects 1 = 5000 \<and>
   result (loginAndGetSession signin0 world_poll_rejects args0) = None \<and>
   trace (loginAndGetSession signin0 world_poll_rejects args0) =
     [Did LaunchPersistentContext, Did ApplyStealthToContext, Did GotoLogin,
      Did DismissAnnouncement, Did ClickProviderButton, Did AwaitNewPage,
      Did WaitForLoginField, Did EnterUsername, Did EnterPassword, Did ClickSignIn,
      Did AddAccountLoginInfo, Did WaitForOtpField,
      Did (GetAccountLoginInfo 0), Did (GetAccountLoginInfo 1),
      Logged LogError, Did ClosePage, Did CloseContext] \<and>
   count_list (trace (loginAndGetSession signin0 world_poll_rejects args0))
     (Logged LogDeviceCodeTimeout) = 0"
  by (simp add: world_poll_rejects_def world_defs run_defs polling.simps fillable_code_def
      getRandomDelay_def draw_of_percent.rep_eq)

theorem device_code_never_set_expires_witness:
  "fst (throughTwoFactor world_device args0) = Next \<and> needsDeviceVerification world_device \<and>
   polling world_device (clock_start world_device)
     (expire_time (addResult world_device) - clock_deadline world_device) 0
     (clock_start world_device)
     = (Expired 10000, [Did (GetAccountLoginInfo 0), Did (GetAccountLoginInfo 1)]) \<and>
   expire_time (addResult world_device) = 7000 \<and>
   test_time world_device 1 = 5000 \<and> test_time world_device 2 = 10000 \<and>
   result (loginAndGetSession signin0 world_device args0) = None \<and>
   trace (loginAndGetSession signin0 world_device args0) =
     [Did LaunchPersistentContext, Did ApplyStealthToContext, Did GotoLogin,
      Did DismissAnnouncement, Did ClickProviderButton, Did AwaitNewPage,
      Did WaitForLoginField, Did EnterUsername, Did EnterPassword, Did ClickSignIn,
      Did AddAccountLoginInfo, Did WaitForOtpField,
      Did (GetAccountLoginInfo 0), Did (GetAccountLoginInfo 1),
      Logged LogDeviceCodeTimeout, Did ClosePage, Did CloseContext] \<and>
   count_list (trace (loginAndGetSession signin0 world_device args0))
     (Logged LogDeviceCodeTimeout) = 1"
  using device_code_never_set_expires [of world_device args0 signin0]
  by (simp add: world_defs run_defs polling.simps fillable_code_def trim_def js_whitespace_def
      getRandomDelay_def draw_of_percent.rep_eq numeral_2_eq_2)

theorem two_factor_without_secret_fails_witness:
  "fst (throughCredentials world_twofa) = Next \<and> needsTwoFactor world_twofa \<and>
   \<not> truthy_str (twofaSecret args0) \<and>
   result (loginAndGetSession signin0 world_twofa args0) = None \<and>
   trace (loginAndGetSession signin0 world_twofa args0) =
     [Did LaunchPersistentContext, Did ApplyStealthToContext, Did GotoLogin,
      Did DismissAnnouncement, Did ClickProviderButton, Did AwaitNewPage,
      Did WaitForLoginField, Did EnterUsername, Did EnterPassword, Did ClickSignIn,
      Logged LogNoTwofaSecret, Did ClosePage, Did CloseContext]"
  using two_factor_without_secret_fails [of world_twofa args0 signin0]
  by (simp add: world_defs run_defs)

text \<open>
  C9, as stated, fails on the exit paths where a cookie call of the cleanup rejects. The
  jar holds one cookie of \<open>agentrouter.org\<close> and one of \<open>github.com\<close>. When
  \<open>addCookies\<close> rejects, the jar has been cleared and stays empty: the cookie of
  \<open>github.com\<close> is lost, and neither the page nor the context is closed. When
  \<open>context.cookies\<close> rejects, nothing is removed: the cookie of \<open>agentrouter.org\<close> stays.
\<close>

theorem rejected_cookie_call_breaks_the_cleanup:
  "js_includes (baseUrl signin_agent) ''agentrouter.org'' \<and>
   cookies world_add_rejects =
     [\<lparr>cookie_name = ''session'', cookie_value = ''tok'',
       cookie_domain = ''agentrouter.org'', cookie_path = ''/''\<rparr>,
      \<lparr>cookie_name = ''user_session'', cookie_value = ''gh'',
       cookie_domain = ''github.com'', cookie_path = ''/''\<rparr>] \<and>
   final_jar (loginAndGetSession signin_agent world_add_rejects args0) = Some [] \<and>
   trace (loginAndGetSession signin_agent world_add_rejects args0) =
     [Did LaunchPersistentContext, Did ApplyStealthToContext, Did GotoLogin, Did ReadCookies,
      Logged LogSuccess, Did CleanupReadCookies, Did ClearCookies, Did AddCookies,
      Logged LogCleanupWarning] \<and>
   cookies world_read_rejects = cookies world_add_rejects \<and>
   final_jar (loginAndGetSession signin_agent world_read_rejects args0) =
     Some [\<lparr>cookie_name = ''session'', cookie_value = ''tok'',
             cookie_domain = ''agentrouter.org'', cookie_path = ''/''\<rparr>,
           \<lparr>cookie_name = ''user_session'', cookie_value = ''gh'',
             cookie_domain = ''github.com'', cookie_path = ''/''\<rparr>] \<and>
   trace (loginAndGetSession signin_agent world_read_rejects args0) =
     [Did LaunchPersistentContext, Did ApplyStealthToContext, Did GotoLogin, Did ReadCookies,
      Logged LogSuccess, Did CleanupReadCookies, Logged LogCleanupWarning]"
  by (simp add: world_add_rejects_def world_read_rejects_def world_defs run_defs digits.simps)

theorem non_sticky_cleanup_strips_provider_cookies_witness:
  "js_includes (baseUrl signin_agent) ''agentrouter.org'' \<and> contextOpened world_agent \<and>
   distinct (map cookie_key (cookies world_agent)) \<and>
   final_jar (loginAndGetSession signin_agent world_agent args0) =
     Some [\<lparr>cookie_name = ''user_session'', cookie_value = ''gh'',
            cookie_domain = ''github.com'', cookie_path = ''/''\<rparr>]"
  using non_sticky_cleanup_strips_provider_cookies [of signin_agent world_agent args0]
  by (simp add: world_defs run_defs cookie_key_def same_cookie_def)

section \<open>Batches: results, counts and delays\<close>












section \<open>The payload evaluated twice\<close>

lemma foldl_andThen_thrown: "fst r \<noteq> None \<Longrightarrow> foldl andThen r fs = r"
  by (induction fs) (auto simp: andThen_def)

lemma defineProperty_other:
  "defineProperty own name v = Inr own' \<Longrightarrow> n \<noteq> name \<Longrightarrow> own' n = own n"
  by (auto simp: defineProperty_def split: option.splits prod.splits bool.splits)

lemma defineProperties_other:
  "n \<notin> fst ` set kvs \<Longrightarrow> snd (defineProperties own kvs) n = own n"
proof (induction kvs arbitrary: own)
  case Nil
  then show ?case by simp
next
  case (Cons kv kvs)
  obtain name v where kv: "kv = (name, v)" by (cases kv)
  show ?case
  proof (cases "defineProperty own name v")
    case (Inl e)
    then show ?thesis using kv by simp
  next
    case (Inr own')
    have "own' n = own n"
      using Inr Cons.prems kv by (intro defineProperty_other [OF Inr]) auto
    moreover have "snd (defineProperties own' kvs) n = own' n"
      using Cons.prems by (intro Cons.IH) auto
    ultimately show ?thesis using kv Inr by simp
  qed
qed

lemma keeps_webdriver_refl: "keeps_webdriver q q"
  by (simp add: keeps_webdriver_def)

lemma keeps_webdriver_trans:
  "keeps_webdriver a b \<Longrightarrow> keeps_webdriver b c \<Longrightarrow> keeps_webdriver a c"
  by (simp add: keeps_webdriver_def)

lemma keeps_define_on_navigator:
  "''webdriver'' \<notin> fst ` set kvs \<Longrightarrow> keeps_webdriver q (snd (define_on_navigator kvs q))"
proof -
  assume n: "''webdriver'' \<notin> fst ` set kvs"
  obtain err own where d: "defineProperties (navigator_own q) kvs = (err, own)"
    by (cases "defineProperties (navigator_own q) kvs")
  with defineProperties_other [OF n, of "navigator_own q"]
  show ?thesis by (simp add: define_on_navigator_def keeps_webdriver_def)
qed

lemma keeps_define_on_document: "keeps_webdriver q (snd (define_on_document kvs q))"
  by (simp add: define_on_document_def keeps_webdriver_def split: prod.splits)

lemma keeps_define_on_screen: "keeps_webdriver q (snd (define_on_screen kvs q))"
  by (simp add: define_on_screen_def keeps_webdriver_def split: prod.splits)

lemma later_measures_keep:
  assumes "f \<in> set later_measures"
  shows "keeps_webdriver q (snd (f q))"
proof -
  have nav: "keeps_webdriver q (snd (define_on_navigator navigator_fixes q))"
    "keeps_webdriver q (snd (define_on_navigator [(''plugins'', pluginArray)] q))"
    "keeps_webdriver q (snd (define_on_navigator language_fixes q))"
    by (rule keeps_define_on_navigator, simp add: navigator_fixes_def language_fixes_def)+
  have rest: "keeps_webdriver q (snd (fixChrome q))"
    "keeps_webdriver q (snd (wrapPermissionsQuery q))"
    "keeps_webdriver q (snd (wrapWebGL q))" "keeps_webdriver q (snd (wrapWebGL2 q))"
    "keeps_webdriver q (snd (proxyToString q))" "keeps_webdriver q (snd (fixBattery q))"
    "keeps_webdriver q (snd (fixNotification q))" "keeps_webdriver q (snd (fixMediaDevices q))"
    "keeps_webdriver q (snd (fixTimezone q))" "keeps_webdriver q (snd (logApplied q))"
    by (simp_all add: fixChrome_def wrapPermissionsQuery_def wrapWebGL_def wrapWebGL2_def
        proxyToString_def fixBattery_def fixNotification_def fixMediaDevices_def
        fixTimezone_def logApplied_def keeps_webdriver_def split: option.splits sum.splits)
  from assms have "f = fixChrome \<or> f = define_on_navigator navigator_fixes
      \<or> f = define_on_navigator [(''plugins'', pluginArray)]
      \<or> f = define_on_navigator language_fixes \<or> f = wrapPermissionsQuery \<or> f = wrapWebGL
      \<or> f = wrapWebGL2 \<or> f = proxyToString \<or> f = define_on_document visibility_fixes
      \<or> f = fixBattery \<or> f = fixNotification \<or> f = fixMediaDevices
      \<or> f = define_on_screen screen_fixes \<or> f = fixTimezone \<or> f = logApplied"
    by (simp add: later_measures_def)
  then show ?thesis
    using nav rest keeps_define_on_document [of q visibility_fixes]
      keeps_define_on_screen [of q screen_fixes]
    by (elim disjE) simp_all
qed

lemma foldl_andThen_keeps:
  "(\<And>f q. f \<in> set fs \<Longrightarrow> keeps_webdriver q (snd (f q))) \<Longrightarrow>
     keeps_webdriver (snd r) (snd (foldl andThen r fs))"
proof (induction fs arbitrary: r)
  case Nil
  then show ?case by (simp add: keeps_webdriver_refl)
next
  case (Cons f fs)
  have 1: "keeps_webdriver (snd r) (snd (andThen r f))"
    using Cons.prems [of f "snd r"]
    by (cases "fst r") (simp_all add: andThen_def keeps_webdriver_refl)
  have 2: "keeps_webdriver (snd (andThen r f)) (snd (foldl andThen (andThen r f) fs))"
    using Cons.prems by (intro Cons.IH) simp
  from 1 2 show ?case by (simp add: keeps_webdriver_trans)
qed

lemma delete_prop_idem: "delete_prop (delete_prop ps name) name = delete_prop ps name"
  by (auto simp: delete_prop_def split: option.splits prod.splits bool.splits)

lemma removeWebdriver_fixes:
  assumes "\<forall>v. navigator_own p ''webdriver'' \<noteq> Some (v, True)"
  shows "\<exists>v. navigator_own (snd (removeWebdriver p)) ''webdriver'' = Some (v, False)"
    and "navigator_proto (snd (removeWebdriver p)) = delete_prop (navigator_proto p) ''webdriver''"
  using assms
  by (auto simp: removeWebdriver_def define_on_navigator_def defineProperty_def
      split: option.splits prod.splits bool.splits)

lemma removeWebdriver_again:
  assumes "navigator_own q ''webdriver'' = Some (v, False)"
    and "delete_prop (navigator_proto q) ''webdriver'' = navigator_proto q"
  shows "removeWebdriver q = (Some (TypeError ''Cannot redefine property: webdriver''), q)"
  using assms
  by (simp add: removeWebdriver_def define_on_navigator_def defineProperty_def)

lemma second_evaluation_aborts:
  assumes "\<forall>v. navigator_own p ''webdriver'' \<noteq> Some (v, True)"
  shows "stealthScript (snd (stealthScript p)) =
           (Some (TypeError ''Cannot redefine property: webdriver''), snd (stealthScript p))"
proof -
  let ?q = "snd (stealthScript p)"
  have k: "keeps_webdriver (snd (removeWebdriver p)) ?q"
    unfolding stealthScript_def
    by (rule foldl_andThen_keeps) (rule later_measures_keep)
  from removeWebdriver_fixes [OF assms] k
  obtain v where v: "navigator_own ?q ''webdriver'' = Some (v, False)"
    and pr: "navigator_proto ?q = delete_prop (navigator_proto p) ''webdriver''"
    by (auto simp: keeps_webdriver_def)
  have "delete_prop (navigator_proto ?q) ''webdriver'' = navigator_proto ?q"
    by (simp add: pr delete_prop_idem)
  with v have "removeWebdriver ?q = (Some (TypeError ''Cannot redefine property: webdriver''), ?q)"
    by (rule removeWebdriver_again)
  then show ?thesis
    by (simp add: stealthScript_def [of ?q] foldl_andThen_thrown)
qed

text \<open>
  C4. On a page whose navigator has no own configurable \<open>webdriver\<close> property (so on
  every new document, where \<open>webdriver\<close> lives on the prototype, and on every page the
  payload has already defined it on), every surface a detection script reads (navigator,
  screen and document properties, plugins, the timezone offset, function stringification)
  reads the same after two evaluations of the payload as after one. The second evaluation
  stops at its first definition, which the non-configurable \<open>webdriver\<close> refuses, and
  leaves the page as the first one left it.
\<close>

theorem stealth_evaluated_twice_observes_the_same:
  assumes "\<forall>v. navigator_own p ''webdriver'' \<noteq> Some (v, True)"
  shows "observe (snd (stealthScript (snd (stealthScript p)))) s
           = observe (snd (stealthScript p)) s"
  by (simp add: second_evaluation_aborts [OF assms])

section \<open>The payload and the optional interfaces\<close>

lemma defineProperty_redefinable:
  "redefinable own name \<Longrightarrow>
     defineProperty own name v = Inr (own(name \<mapsto> (v, own name \<noteq> None)))"
  by (auto simp: redefinable_def defineProperty_def split: option.splits bool.splits)

lemma redefinable_upd:
  "redefinable (own(m \<mapsto> x)) name = (if m = name then snd x else redefinable own name)"
  by (cases x) (auto simp: redefinable_def split: bool.splits)

lemma stringify_toString:
  "permissions_query q \<noteq> None \<Longrightarrow>
     stringify q FunctionToString =
       Inr (case function_toString q of
              NativeToString \<Rightarrow> native_code ''toString''
            | ProxiedToString target text \<Rightarrow> text)"
  by (cases "function_toString q")
     (auto simp: stringify_def native_toString_def fn_name_def)

lemma fixBattery_eq:
  "fixBattery q =
     (None, q\<lparr>getBattery := (case getBattery q of None \<Rightarrow> None | Some b \<Rightarrow> Some StubBattery)\<rparr>)"
  by (cases "getBattery q") (simp_all add: fixBattery_def)

lemma fixNotification_eq:
  "fixNotification q =
     (None, q\<lparr>notification :=
                 Some (case notification q of None \<Rightarrow> StubNotification | Some n \<Rightarrow> n)\<rparr>)"
  by (cases "notification q") (simp_all add: fixNotification_def)

lemma fixMediaDevices_eq:
  "fixMediaDevices q =
     (None, q\<lparr>enumerateDevices := map_option FilteredEnumerate (enumerateDevices q)\<rparr>)"
  by (cases "enumerateDevices q") (simp_all add: fixMediaDevices_def)

lemmas measure_defs =
  removeWebdriver_def define_on_navigator_def define_on_document_def define_on_screen_def
  fixChrome_def wrapPermissionsQuery_def wrapWebGL_def wrapWebGL2_def proxyToString_def
  fixBattery_eq fixNotification_eq fixMediaDevices_eq fixTimezone_def logApplied_def
  navigator_fixes_def language_fixes_def visibility_fixes_def screen_fixes_def

lemma andThen_pair: "andThen (None, q) f = f q" "andThen (Some e, q) f = (Some e, q)"
  by (simp_all add: andThen_def)

lemma payload_completes:
  assumes "accepts_payload p"
  shows "fst (stealthScript p) = None"
    and "notification (snd (stealthScript p)) =
           Some (case notification p of None \<Rightarrow> StubNotification | Some n \<Rightarrow> n)"
    and "getBattery (snd (stealthScript p)) =
           (case getBattery p of None \<Rightarrow> None | Some b \<Rightarrow> Some StubBattery)"
proof -
  from assms obtain q g g2 where
    q: "permissions_query p = Some q" "webgl_getParameter p = Some g"
       "webgl2_getParameter p = Some g2"
    by (auto simp: accepts_payload_def)
  from assms have r:
    "redefinable (navigator_own p) ''webdriver''" "redefinable (navigator_own p) ''plugins''"
    "redefinable (navigator_own p) ''platform''" "redefinable (navigator_own p) ''vendor''"
    "redefinable (navigator_own p) ''productSub''"
    "redefinable (navigator_own p) ''maxTouchPoints''"
    "redefinable (navigator_own p) ''hardwareConcurrency''"
    "redefinable (navigator_own p) ''deviceMemory''"
    "redefinable (navigator_own p) ''connection''"
    "redefinable (navigator_own p) ''languages''" "redefinable (navigator_own p) ''language''"
    "redefinable (document_own p) ''hidden''" "redefinable (document_own p) ''visibilityState''"
    "redefinable (screen_own p) ''availWidth''" "redefinable (screen_own p) ''availHeight''"
    "redefinable (screen_own p) ''width''" "redefinable (screen_own p) ''height''"
    "redefinable (screen_own p) ''colorDepth''" "redefinable (screen_own p) ''pixelDepth''"
    by (simp_all add: accepts_payload_def navigator_fixes_def language_fixes_def
        visibility_fixes_def screen_fixes_def)
  show "fst (stealthScript p) = None"
    using q r
    by (simp add: stealthScript_def later_measures_def andThen_pair measure_defs
        defineProperty_redefinable redefinable_upd stringify_toString)
  show "notification (snd (stealthScript p)) =
           Some (case notification p of None \<Rightarrow> StubNotification | Some n \<Rightarrow> n)"
    using q r
    by (simp add: stealthScript_def later_measures_def andThen_pair measure_defs
        defineProperty_redefinable redefinable_upd stringify_toString)
  show "getBattery (snd (stealthScript p)) =
           (case getBattery p of None \<Rightarrow> None | Some b \<Rightarrow> Some StubBattery)"
    using q r
    by (simp add: stealthScript_def later_measures_def andThen_pair measure_defs
        defineProperty_redefinable redefinable_upd stringify_toString)
qed

lemmas payload_defs =
  stealthScript_def later_measures_def andThen_pair measure_defs defineProperties.simps
  defineProperty_def delete_prop_def stringify_def native_toString_def native_code_def
  fn_name_def observe_def get_prop_def stub_battery_def

text \<open>
  C8, as stated, fails for the battery: on a page without \<open>getBattery\<close> and without
  \<open>Notification\<close> the payload runs to its end, installs the \<open>Notification\<close> stub, and
  leaves \<open>getBattery\<close> undefined.
\<close>

theorem absent_battery_gets_no_stub:
  "getBattery bare_page = None \<and> notification bare_page = None \<and>
   fst (stealthScript bare_page) = None \<and>
   getBattery (snd (stealthScript bare_page)) = None \<and>
   observe (snd (stealthScript bare_page)) BatteryApi = Inr PUndefined \<and>
   notification (snd (stealthScript bare_page)) = Some StubNotification"
  by (simp add: payload_defs bare_page_def chromium_page_def)

text \<open>
  C8, amended. On a page that accepts the payload, whether or not the battery and the
  notification interfaces exist, the evaluation does not throw; an absent \<open>Notification\<close>
  is replaced by the stub, whose permission reads \<open>default\<close>, and an existing one is
  kept; an existing \<open>getBattery\<close> is replaced by the stub, and an absent one stays absent.
\<close>

theorem payload_completes_without_optional_apis:
  assumes "accepts_payload p"
  shows "fst (stealthScript p) = None \<and>
         notification (snd (stealthScript p)) =
           Some (case notification p of None \<Rightarrow> StubNotification | Some n \<Rightarrow> n) \<and>
         getBattery (snd (stealthScript p)) =
           (case getBattery p of None \<Rightarrow> None | Some b \<Rightarrow> Some StubBattery) \<and>
         (notification p = None \<longrightarrow>
            observe (snd (stealthScript p)) NotificationPermission = Inr (PStr ''default'')) \<and>
         (getBattery p = None \<longrightarrow>
            observe (snd (stealthScript p)) BatteryApi = Inr PUndefined)"
  using payload_completes [OF assms]
  by (simp add: observe_def)

theorem payload_completes_without_optional_apis_witness:
  "accepts_payload bare_page \<and> getBattery bare_page = None \<and> notification bare_page = None \<and>
   fst (stealthScript bare_page) = None \<and>
   observe (snd (stealthScript bare_page)) NotificationPermission = Inr (PStr ''default'') \<and>
   observe (snd (stealthScript bare_page)) BatteryApi = Inr PUndefined \<and>
   accepts_payload chromium_page \<and>
   observe (snd (stealthScript chromium_page)) NotificationPermission = Inr (PStr ''denied'') \<and>
   observe (snd (stealthScript chromium_page)) BatteryApi = Inr stub_battery"
  using payload_completes_without_optional_apis [of bare_page]
    payload_completes_without_optional_apis [of chromium_page]
  by (simp add: accepts_payload_def redefinable_def navigator_fixes_def language_fixes_def
      visibility_fixes_def screen_fixes_def bare_page_def chromium_page_def observe_def)

theorem stealth_evaluated_twice_observes_the_same_witness:
  "navigator_own chromium_page ''webdriver'' = None \<and>
   fst (stealthScript chromium_page) = None \<and>
   observe chromium_page (NavigatorProp ''webdriver'') = Inr (PBool True) \<and>
   observe (snd (stealthScript chromium_page)) (NavigatorProp ''webdriver'') = Inr PUndefined \<and>
   observe (snd (stealthScript (snd (stealthScript chromium_page)))) (NavigatorProp ''webdriver'')
     = Inr PUndefined \<and>
   observe (snd (stealthScript chromium_page)) (NavigatorProp ''platform'') = Inr (PStr ''Win32'') \<and>
   observe (snd (stealthScript (snd (stealthScript chromium_page)))) (NavigatorProp ''platform'')
     = Inr (PStr ''Win32'') \<and>
   observe (snd (stealthScript chromium_page)) (ScreenProp ''width'') = Inr (PNum 1920) \<and>
   observe (snd (stealthScript (snd (stealthScript chromium_page)))) (ScreenProp ''width'')
     = Inr (PNum 1920) \<and>
   observe (snd (stealthScript chromium_page)) TimezoneOffset = Inr (PNum (- 480)) \<and>
   observe (snd (stealthScript (snd (stealthScript chromium_page)))) TimezoneOffset
     = Inr (PNum (- 480)) \<and>
   observe (snd (stealthScript chromium_page)) (Stringification PermissionsQuery)
     = Inr (PStr ''function query() { [native code] }'') \<and>
   observe (snd (stealthScript (snd (stealthScript chromium_page))))
       (Stringification PermissionsQuery)
     = Inr (PStr ''function query() { [native code] }'') \<and>
   observe (snd (stealthScript chromium_page)) (Stringification FunctionToString)
     = Inr (PStr ''function toString() { [native code] }'')"
proof -
  have once:
    "navigator_own chromium_page ''webdriver'' = None"
    "fst (stealthScript chromium_page) = None"
    "observe chromium_page (NavigatorProp ''webdriver'') = Inr (PBool True)"
    "observe (snd (stealthScript chromium_page)) (NavigatorProp ''webdriver'') = Inr PUndefined"
    "observe (snd (stealthScript chromium_page)) (NavigatorProp ''platform'') = Inr (PStr ''Win32'')"
    "observe (snd (stealthScript chromium_page)) (ScreenProp ''width'') = Inr (PNum 1920)"
    "observe (snd (stealthScript chromium_page)) TimezoneOffset = Inr (PNum (- 480))"
    "observe (snd (stealthScript chromium_page)) (Stringification PermissionsQuery)
       = Inr (PStr ''function query() { [native code] }'')"
    "observe (snd (stealthScript chromium_page)) (Stringification FunctionToString)
       = Inr (PStr ''function toString() { [native code] }'')"
    by (simp_all add: payload_defs chromium_page_def)
  have twice: "observe (snd (stealthScript (snd (stealthScript chromium_page)))) s
                 = observe (snd (stealthScript chromium_page)) s" for s
    by (rule stealth_evaluated_twice_observes_the_same) (simp add: once(1))
  show ?thesis
    by (simp only: twice once simp_thms)
qed

end
